theory Spec2Isabelle
  imports Main "HOL-Library.AList" "HOL-Library.Word"
begin

section \<open>The DuckChat server (duckchat\_v2/server.c)\<close>

text \<open>
  A shallow embedding of the multi-server DuckChat server. The server is single
  threaded: one datagram (or one receive timeout) is handled from start to finish.
  Every handler of the source becomes a function from the server's global state to the
  new state together with the list of datagrams it hands to \<^verbatim>\<open>sendto\<close>, in
  the order of the calls. Logging to stdout is not modelled.

  Memory allocation is taken to succeed: the \<^verbatim>\<open>goto error\<close> branches that
  the source takes only when \<^verbatim>\<open>malloc\<close> fails are not part of the model.
  String fields of a received datagram are modelled as the C string they hold (the
  bytes before the first NUL); the truncations the source applies with
  \<^verbatim>\<open>strncpy\<close> are written out with \<^const>\<open>take\<close>.
\<close>

subsection \<open>Constants\<close>

text \<open>From properties.h.\<close>

definition MSGQ_SIZE :: nat where
  "MSGQ_SIZE = 48"

definition REFRESH_RATE :: int where
  "REFRESH_RATE = 2"

definition DEFAULT_CHANNEL :: string where
  "DEFAULT_CHANNEL = ''Common''"

text \<open>
  Modelled from the spec: duckchat.h, which declares the field widths of the wire
  format, is not among the sources. The specification (section 6) fixes them as
  "at least 32 / 32 / 64 / 64 bytes", each including the trailing NUL; the values of
  the DuckChat protocol are taken.
\<close>

definition USERNAME_MAX :: nat where
  "USERNAME_MAX = 32"

definition CHANNEL_MAX :: nat where
  "CHANNEL_MAX = 32"

definition SAY_MAX :: nat where
  "SAY_MAX = 64"

definition IP_MAX :: nat where
  "IP_MAX = 64"

subsection \<open>Containers\<close>

text \<open>
  Modelled from the spec: hashmap.c and linkedlist.c (the HashMap and LinkedList
  ADTs the server borrows) are not among the sources. The specification (sections 4.2
  and 9) asks for a map with lookup, insert and remove by key and an iteration
  snapshot, and an ordered sequence. A HashMap is modelled as an association list with
  the operations below: \<open>hm_put\<close> replaces the element of a key that is present and
  adds the key otherwise, \<open>hm_remove\<close> deletes the key, and the snapshots
  \<open>hm_keyArray\<close> and \<open>hm_entryArray\<close> list the entries in the order of
  the association list (the order of a real hash table is unspecified). A LinkedList
  is a HOL list; \<^verbatim>\<open>ll_add\<close> appends at the end.
\<close>

type_synonym 'v hashmap = "(string \<times> 'v) list"

definition hm_get :: "'v hashmap \<Rightarrow> string \<Rightarrow> 'v option" where
  "hm_get hm k = map_of hm k"

definition hm_containsKey :: "'v hashmap \<Rightarrow> string \<Rightarrow> bool" where
  "hm_containsKey hm k = (k \<in> set (map fst hm))"

definition hm_put :: "'v hashmap \<Rightarrow> string \<Rightarrow> 'v \<Rightarrow> 'v hashmap" where
  "hm_put hm k v = AList.update k v hm"

definition hm_remove :: "'v hashmap \<Rightarrow> string \<Rightarrow> 'v hashmap" where
  "hm_remove hm k = AList.delete k hm"

definition hm_isEmpty :: "'v hashmap \<Rightarrow> bool" where
  "hm_isEmpty hm = (hm = [])"

definition hm_keyArray :: "'v hashmap \<Rightarrow> string list" where
  "hm_keyArray hm = map fst hm"

definition hm_entryArray :: "'v hashmap \<Rightarrow> 'v list" where
  "hm_entryArray hm = map snd hm"

definition ll_add :: "'a list \<Rightarrow> 'a \<Rightarrow> 'a list" where
  "ll_add xs x = xs @ [x]"

text \<open>
  The source removes an element from a list with the same loop in several places:
  scan from the front, remove the first element that satisfies the test (a
  \<^verbatim>\<open>strcmp\<close> on the address string) and stop.
\<close>

fun ll_remove_first :: "('a \<Rightarrow> bool) \<Rightarrow> 'a list \<Rightarrow> 'a list" where
  "ll_remove_first P [] = []"
| "ll_remove_first P (x # xs) = (if P x then xs else x # ll_remove_first P xs)"

subsection \<open>Data model\<close>

text \<open>
  \<open>User\<close> and \<open>Server\<close> are the structs of the source; the socket address
  \<^verbatim>\<open>addr\<close> and the string \<^verbatim>\<open>ip_addr\<close> name the same endpoint
  (the string is printed from the address), so one field stands for both and a datagram
  is addressed by the endpoint string.
\<close>

record User =
  u_ip_addr :: string
  u_username :: string
  u_channels :: "string list"
  u_last_min :: int

record Server =
  s_ip_addr :: string
  s_last_min :: int

text \<open>
  A channel's list holds pointers to \<open>User\<close> structs, and an entry of the
  routing table holds pointers to \<open>Server\<close> structs. Through these pointers the
  source reads only \<^verbatim>\<open>ip_addr\<close>, \<^verbatim>\<open>addr\<close> and
  \<^verbatim>\<open>username\<close>, which never change after the struct is created. A
  channel member is therefore modelled by these fields of the struct it points to, and
  a routing-table entry by the list of the servers' address strings.
\<close>

record member =
  m_ip_addr :: string
  m_username :: string

datatype packet =
    REQ_LOGIN string
  | REQ_LOGOUT
  | REQ_JOIN string
  | REQ_LEAVE string
  | REQ_SAY string string
  | REQ_LIST
  | REQ_WHO string
  | REQ_KEEP_ALIVE
  | REQ_VERIFY string
  | REQ_S2S_JOIN string
  | REQ_S2S_LEAVE string
  | REQ_S2S_SAY "64 word" string string string
  | REQ_S2S_LIST "64 word" string "string list" "string list"
  | REQ_S2S_WHO "64 word" string string "string list" "string list"
  | REQ_S2S_LEAF "64 word" string
  | REQ_S2S_VERIFY "64 word" string string "string list"
  | REQ_S2S_KEEP_ALIVE
  | TXT_SAY string string string
  | TXT_LIST "string list"
  | TXT_WHO string "string list"
  | TXT_ERROR string
  | TXT_VERIFY bool

text \<open>
  The datagrams a handler sends: the destination endpoint and the packet, in the order
  of the \<^verbatim>\<open>sendto\<close> calls.
\<close>

type_synonym sends = "(string \<times> packet) list"

text \<open>
  The global variables of the server. \<open>urandom\<close> is the environment's answer to
  the coming reads of /dev/urandom: \<open>Some n\<close> is a read of the value \<open>n\<close>,
  \<open>None\<close> (and the exhausted list) a device that cannot be opened. \<open>mode\<close>
  is the tick counter of the main loop.
\<close>

record state =
  server_addr :: string
  users :: "User hashmap"
  channels :: "member list hashmap"
  neighbors :: "Server hashmap"
  r_table :: "string list hashmap"
  id_cache :: "64 word list"
  curr_index :: nat
  mode :: int
  urandom :: "64 word option list"

text \<open>
  Where the source reads a pointer it never initialised (a lookup that failed and
  whose result was not checked), the behaviour of the C program is undefined; the model
  stops with a fault there.
\<close>

datatype fault = UninitialisedRead

subsection \<open>The message ID cache\<close>

definition queue_id :: "64 word \<Rightarrow> state \<Rightarrow> state" where
  "queue_id ident st =
     (let st' = st\<lparr>id_cache := (id_cache st)[curr_index st := ident],
                    curr_index := curr_index st + 1\<rparr>
      in if curr_index st' \<ge> MSGQ_SIZE then st'\<lparr>curr_index := 0\<rparr> else st')"

definition generate_id :: "state \<Rightarrow> 64 word \<times> state" where
  "generate_id st =
     (case urandom st of
        [] \<Rightarrow> (10000, st)
      | None # rest \<Rightarrow> (10000, st\<lparr>urandom := rest\<rparr>)
      | Some num # rest \<Rightarrow> (num, queue_id num (st\<lparr>urandom := rest\<rparr>)))"

definition id_unique :: "64 word \<Rightarrow> state \<Rightarrow> bool" where
  "id_unique ident st = (ident \<notin> set (take MSGQ_SIZE (id_cache st)))"

subsection \<open>Time stamps\<close>

text \<open>
  \<open>now\<close> is the minute of the wall clock (\<^verbatim>\<open>tm_min\<close>) at the time the
  handler runs. The structs are updated in place through the pointer the map holds,
  which is a \<open>hm_put\<close> of the changed record under its key.
\<close>

definition update_user_time :: "int \<Rightarrow> User \<Rightarrow> User" where
  "update_user_time now user = user\<lparr>u_last_min := now\<rparr>"

definition update_server_time :: "int \<Rightarrow> Server \<Rightarrow> Server" where
  "update_server_time now server = server\<lparr>s_last_min := now\<rparr>"

definition malloc_user :: "string \<Rightarrow> string \<Rightarrow> int \<Rightarrow> User" where
  "malloc_user ip name now =
     \<lparr>u_ip_addr = ip, u_username = name, u_channels = [], u_last_min = now\<rparr>"

definition malloc_server :: "string \<Rightarrow> int \<Rightarrow> Server" where
  "malloc_server ip now = \<lparr>s_ip_addr = ip, s_last_min = now\<rparr>"

definition is_inactive :: "int \<Rightarrow> int \<Rightarrow> bool" where
  "is_inactive now last_min =
     (let diff = (if now \<ge> last_min then now - last_min else (60 - last_min) + now)
      in diff > REFRESH_RATE)"

subsection \<open>Addresses\<close>

text \<open>
  \<open>get_addr\<close> parses "host:port" into a socket address and returns NULL when the
  string has no colon. Host lookup is taken to succeed, so the address is named by
  the string itself.
\<close>

definition get_addr :: "string \<Rightarrow> string option" where
  "get_addr ip_addr = (if CHR '':'' \<in> set ip_addr then Some ip_addr else None)"

subsection \<open>The channel sub-tree\<close>

text \<open>
  \<open>remove_server_leaf\<close> returns whether this server was a leaf of the channel's
  sub-tree (the \<^verbatim>\<open>int\<close> result of the source), the new state and the
  datagrams sent. With neighbours present and no routing-table entry for the channel,
  the source measures the list \<^verbatim>\<open>servers\<close> that the failed lookup never
  set.
\<close>

definition remove_server_leaf :: "string \<Rightarrow> state \<Rightarrow> fault + (bool \<times> state \<times> sends)" where
  "remove_server_leaf channel st =
     (if hm_isEmpty (neighbors st) then Inr (False, st, [])
      else case hm_get (r_table st) channel of
        None \<Rightarrow> Inl UninitialisedRead
      | Some servers \<Rightarrow>
          let res = (case hm_get (channels st) channel of
                       Some user_list \<Rightarrow> length servers < 2 \<and> user_list = []
                     | None \<Rightarrow> length servers < 2)
          in if \<not> res then Inr (False, st, [])
             else
               let st' = st\<lparr>r_table := hm_remove (r_table st) channel\<rparr>
               in case servers of
                    [] \<Rightarrow> Inr (True, st', [])
                  | server # _ \<Rightarrow>
                      Inr (True, st',
                           [(server, REQ_S2S_LEAVE (take (CHANNEL_MAX - 1) channel))]))"

definition neighbor_flood_channel :: "string \<Rightarrow> string \<Rightarrow> state \<Rightarrow> sends" where
  "neighbor_flood_channel channel sender_ip st =
     map (\<lambda>server. (s_ip_addr server, REQ_S2S_JOIN (take (CHANNEL_MAX - 1) channel)))
       (filter (\<lambda>server. s_ip_addr server \<noteq> sender_ip) (hm_entryArray (neighbors st)))"

definition flood_s2s_keep_alive :: "state \<Rightarrow> sends" where
  "flood_s2s_keep_alive st =
     map (\<lambda>server. (s_ip_addr server, REQ_S2S_KEEP_ALIVE)) (hm_entryArray (neighbors st))"

definition refresh_s2s_joins :: "state \<Rightarrow> sends" where
  "refresh_s2s_joins st =
     concat (map (\<lambda>ch. neighbor_flood_channel ch (server_addr st) st)
       (hm_keyArray (r_table st)))"

text \<open>
  \<open>server_join_channel\<close> fails (returns 0, here \<open>None\<close>) when
  \<^verbatim>\<open>hm_entryArray\<close> returns NULL, which it does for an empty map.
\<close>

definition server_join_channel :: "string \<Rightarrow> state \<Rightarrow> state option" where
  "server_join_channel channel st =
     (if hm_isEmpty (neighbors st) then None
      else Some (st\<lparr>r_table :=
        hm_put (r_table st) channel (map s_ip_addr (hm_entryArray (neighbors st)))\<rparr>))"

definition server_send_error :: "string \<Rightarrow> string \<Rightarrow> sends" where
  "server_send_error addr msg = [(addr, TXT_ERROR (take (SAY_MAX - 1) msg))]"

definition broadcast_message :: "member list \<Rightarrow> string \<Rightarrow> string \<Rightarrow> string \<Rightarrow> sends" where
  "broadcast_message listeners username channel text =
     map (\<lambda>listener. (m_ip_addr listener,
            TXT_SAY (take (CHANNEL_MAX - 1) channel) (take (USERNAME_MAX - 1) username)
              (take (SAY_MAX - 1) text)))
       listeners"

text \<open>
  The probe that \<open>server_leave_request\<close> and \<open>logout_user\<close> both send when
  the server is not a leaf and no client listens on the channel any more: an S2S LEAF
  packet with a fresh ID to every server of the routing-table entry. The lookup of the
  entry is unchecked in the source.
\<close>

definition send_leaf_check :: "string \<Rightarrow> state \<Rightarrow> fault + (state \<times> sends)" where
  "send_leaf_check channel st =
     (if hm_isEmpty (neighbors st) then Inr (st, [])
      else case hm_get (r_table st) channel of
        None \<Rightarrow> Inl UninitialisedRead
      | Some servers \<Rightarrow>
          let (ident, st') = generate_id st
          in Inr (st', map (\<lambda>server.
                    (server, REQ_S2S_LEAF ident (take (CHANNEL_MAX - 1) channel))) servers))"

definition clients_listening :: "string \<Rightarrow> state \<Rightarrow> bool" where
  "clients_listening channel st =
     (case hm_get (channels st) channel of Some user_list \<Rightarrow> user_list \<noteq> [] | None \<Rightarrow> False)"

text \<open>
  Two steps in a row: the second runs in the state the first leaves, a fault ends the
  handler, and the datagrams are sent in order.
\<close>

definition and_then ::
  "fault + (state \<times> sends) \<Rightarrow> (state \<Rightarrow> fault + (state \<times> sends)) \<Rightarrow> fault + (state \<times> sends)" where
  "and_then r f =
     (case r of
        Inl e \<Rightarrow> Inl e
      | Inr (st, out) \<Rightarrow>
          (case f st of Inl e \<Rightarrow> Inl e | Inr (st', out') \<Rightarrow> Inr (st', out @ out')))"

text \<open>
  What \<open>server_leave_request\<close> and \<open>logout_user\<close> both do once the user is
  off the channel's list \<open>user_list\<close>: delete the channel if it is empty and not the
  default channel, leave the sub-tree if the server is a leaf, and otherwise, if no
  client listens any more, probe the neighbours.
\<close>

definition remove_empty_channel :: "string \<Rightarrow> member list \<Rightarrow> state \<Rightarrow> state" where
  "remove_empty_channel channel user_list st =
     (if user_list = [] \<and> channel \<noteq> DEFAULT_CHANNEL
      then st\<lparr>channels := hm_remove (channels st) channel\<rparr> else st)"

definition leave_sub_tree :: "string \<Rightarrow> state \<Rightarrow> fault + (state \<times> sends)" where
  "leave_sub_tree channel st =
     (case remove_server_leaf channel st of
        Inl e \<Rightarrow> Inl e
      | Inr (leaf, st', out) \<Rightarrow>
          if leaf then Inr (st', out)
          else if clients_listening channel st' then Inr (st', out)
          else and_then (Inr (st', out)) (send_leaf_check channel))"

subsection \<open>Client requests\<close>

definition member_of :: "User \<Rightarrow> member" where
  "member_of user = \<lparr>m_ip_addr = u_ip_addr user, m_username = u_username user\<rparr>"

definition username_taken :: "string \<Rightarrow> state \<Rightarrow> bool" where
  "username_taken name st = (name \<in> set (map u_username (hm_entryArray (users st))))"

definition server_verify_request :: "string \<Rightarrow> string \<Rightarrow> state \<Rightarrow> state \<times> sends" where
  "server_verify_request req_username client_ip st =
     (let res = \<not> username_taken req_username st
      in if \<not> hm_isEmpty (neighbors st) \<and> res then
           let ip_list = hm_keyArray (neighbors st);
               (ident, st') = generate_id st;
               s2s_verify = REQ_S2S_VERIFY ident req_username (take (IP_MAX - 1) client_ip)
                              (map (take (IP_MAX - 1)) (tl ip_list))
           in case get_addr (hd ip_list) of
                None \<Rightarrow> (st', server_send_error client_ip ''Verification failed.'')
              | Some forward \<Rightarrow> (st', [(forward, s2s_verify)])
         else (st, [(client_ip, TXT_VERIFY res)]))"

definition server_login_request :: "string \<Rightarrow> string \<Rightarrow> int \<Rightarrow> state \<Rightarrow> state \<times> sends" where
  "server_login_request req_username client_ip now st =
     (let name = take (USERNAME_MAX - 1) req_username;
          user = malloc_user client_ip name now
      in (st\<lparr>users := hm_put (users st) client_ip user\<rparr>, []))"

definition server_join_request :: "string \<Rightarrow> string \<Rightarrow> int \<Rightarrow> state \<Rightarrow> state \<times> sends" where
  "server_join_request req_channel client_ip now st =
     (case hm_get (users st) client_ip of
        None \<Rightarrow> (st, [])
      | Some user0 \<Rightarrow>
          let user = update_user_time now user0;
              st0 = st\<lparr>users := hm_put (users st) client_ip user\<rparr>;
              joined = take (CHANNEL_MAX - 1) req_channel
          in case (if \<not> hm_isEmpty (neighbors st0) \<and> \<not> hm_containsKey (r_table st0) joined
                   then map_option (\<lambda>st'. (st', neighbor_flood_channel joined (server_addr st') st'))
                          (server_join_channel joined st0)
                   else Some (st0, [])) of
               None \<Rightarrow>
                 (st0, server_send_error (u_ip_addr user) (''Failed to join '' @ req_channel @ ''.''))
             | Some (st1, out) \<Rightarrow>
                 let user' = user\<lparr>u_channels := ll_add (u_channels user) joined\<rparr>;
                     st2 = st1\<lparr>users := hm_put (users st1) client_ip user'\<rparr>
                 in case hm_get (channels st2) joined of
                      None \<Rightarrow>
                        (st2\<lparr>channels := hm_put (channels st2) joined [member_of user']\<rparr>, out)
                    | Some user_list \<Rightarrow>
                        if u_ip_addr user' \<in> set (map m_ip_addr user_list) then (st2, out)
                        else (st2\<lparr>channels := hm_put (channels st2) joined
                                     (ll_add user_list (member_of user'))\<rparr>, out))"

definition server_leave_request ::
  "string \<Rightarrow> string \<Rightarrow> int \<Rightarrow> state \<Rightarrow> fault + (state \<times> sends)" where
  "server_leave_request req_channel client_ip now st =
     (case hm_get (users st) client_ip of
        None \<Rightarrow> Inr (st, [])
      | Some user0 \<Rightarrow>
          let user = update_user_time now user0;
              st0 = st\<lparr>users := hm_put (users st) client_ip user\<rparr>;
              channel = take (CHANNEL_MAX - 1) req_channel
          in case hm_get (channels st0) channel of
               None \<Rightarrow>
                 Inr (st0, server_send_error (u_ip_addr user)
                             (''No channel by the name '' @ req_channel @ ''.''))
             | Some user_list \<Rightarrow>
                 let removed = (channel \<in> set (u_channels user));
                     user' = user\<lparr>u_channels :=
                               ll_remove_first (\<lambda>ch. ch = channel) (u_channels user)\<rparr>;
                     user_list' =
                       ll_remove_first (\<lambda>tmp. m_ip_addr tmp = u_ip_addr user) user_list;
                     st1 = st0\<lparr>users := hm_put (users st0) client_ip user',
                               channels := hm_put (channels st0) channel user_list'\<rparr>
                 in if \<not> removed then
                      Inr (st1, server_send_error (u_ip_addr user)
                                  (''You are not subscribed to '' @ channel @ ''.''))
                    else leave_sub_tree channel (remove_empty_channel channel user_list' st1))"

definition server_say_request ::
  "string \<Rightarrow> string \<Rightarrow> string \<Rightarrow> int \<Rightarrow> state \<Rightarrow> state \<times> sends" where
  "server_say_request req_channel req_text client_ip now st =
     (case hm_get (users st) client_ip of
        None \<Rightarrow> (st, [])
      | Some user0 \<Rightarrow>
          (case hm_get (channels st) req_channel of
             None \<Rightarrow> (st, [])
           | Some ch_users \<Rightarrow>
               let user = update_user_time now user0;
                   st0 = st\<lparr>users := hm_put (users st) client_ip user\<rparr>;
                   out = broadcast_message ch_users (u_username user) req_channel req_text;
                   (ident, st1) = generate_id st0;
                   s2s_say = REQ_S2S_SAY ident (take (CHANNEL_MAX - 1) req_channel)
                               (take (USERNAME_MAX - 1) (u_username user))
                               (take (SAY_MAX - 1) req_text)
               in case hm_get (r_table st1) req_channel of
                    None \<Rightarrow> (st1, out)
                  | Some servers \<Rightarrow> (st1, out @ map (\<lambda>server. (server, s2s_say)) servers)))"

definition server_list_request :: "string \<Rightarrow> int \<Rightarrow> state \<Rightarrow> state \<times> sends" where
  "server_list_request client_ip now st =
     (case hm_get (users st) client_ip of
        None \<Rightarrow> (st, [])
      | Some user0 \<Rightarrow>
          let user = update_user_time now user0;
              st0 = st\<lparr>users := hm_put (users st) client_ip user\<rparr>;
              array = hm_keyArray (channels st0)
          in if \<not> hm_isEmpty (neighbors st0) then
               let (ident, st1) = generate_id st0;
                   ips = hm_keyArray (neighbors st1);
                   s2s_list = REQ_S2S_LIST ident (take (IP_MAX - 1) client_ip)
                                (map (take (CHANNEL_MAX - 1)) array)
                                (map (take (CHANNEL_MAX - 1)) (tl ips))
               in case get_addr (hd ips) of
                    None \<Rightarrow>
                      (st1, server_send_error (u_ip_addr user) ''Failed to list the channels.'')
                  | Some forward \<Rightarrow> (st1, [(forward, s2s_list)])
             else (st0, [(u_ip_addr user, TXT_LIST (map (take (CHANNEL_MAX - 1)) array))]))"

definition server_who_request :: "string \<Rightarrow> string \<Rightarrow> int \<Rightarrow> state \<Rightarrow> state \<times> sends" where
  "server_who_request req_channel client_ip now st =
     (case hm_get (users st) client_ip of
        None \<Rightarrow> (st, [])
      | Some user0 \<Rightarrow>
          let user = update_user_time now user0;
              st0 = st\<lparr>users := hm_put (users st) client_ip user\<rparr>;
              res = hm_get (channels st0) req_channel;
              user_list = (case res of Some subscribers \<Rightarrow> subscribers | None \<Rightarrow> []);
              names = map (\<lambda>u. take (USERNAME_MAX - 1) (m_username u)) user_list
          in if \<not> hm_isEmpty (neighbors st0) then
               let (ident, st1) = generate_id st0;
                   ips = hm_keyArray (neighbors st1);
                   s2s_who = REQ_S2S_WHO ident (take (CHANNEL_MAX - 1) req_channel)
                               (take (IP_MAX - 1) client_ip) names
                               (map (take (USERNAME_MAX - 1)) (tl ips))
               in case get_addr (hd ips) of
                    None \<Rightarrow>
                      (st1, server_send_error (u_ip_addr user)
                              (''Failed to list users on '' @ req_channel @ ''.''))
                  | Some forward \<Rightarrow> (st1, [(forward, s2s_who)])
             else if res = None then
               (st0, server_send_error (u_ip_addr user)
                       (''No channel by the name '' @ req_channel @ ''.''))
             else (st0, [(u_ip_addr user, TXT_WHO (take (CHANNEL_MAX - 1) req_channel) names)]))"

definition server_keep_alive_request :: "string \<Rightarrow> int \<Rightarrow> state \<Rightarrow> state \<times> sends" where
  "server_keep_alive_request client_ip now st =
     (case hm_get (users st) client_ip of
        None \<Rightarrow> (st, [])
      | Some user \<Rightarrow>
          (st\<lparr>users := hm_put (users st) client_ip (update_user_time now user)\<rparr>, []))"

text \<open>
  \<open>logout_user\<close>: the loop over the channels of the user, who is already out of
  the map of users. \<open>logout_channel\<close> is one turn of the loop.
\<close>

definition logout_channel :: "string \<Rightarrow> string \<Rightarrow> state \<Rightarrow> fault + (state \<times> sends)" where
  "logout_channel ip ch st =
     (case hm_get (channels st) ch of
        None \<Rightarrow> Inr (st, [])
      | Some user_list \<Rightarrow>
          let user_list' = ll_remove_first (\<lambda>tmp. m_ip_addr tmp = ip) user_list;
              st1 = st\<lparr>channels := hm_put (channels st) ch user_list'\<rparr>
          in leave_sub_tree ch (remove_empty_channel ch user_list' st1))"

fun logout_channels :: "string \<Rightarrow> string list \<Rightarrow> state \<Rightarrow> fault + (state \<times> sends)" where
  "logout_channels ip [] st = Inr (st, [])"
| "logout_channels ip (ch # chs) st = and_then (logout_channel ip ch st) (logout_channels ip chs)"

definition logout_user :: "User \<Rightarrow> state \<Rightarrow> fault + (state \<times> sends)" where
  "logout_user user st = logout_channels (u_ip_addr user) (u_channels user) st"

definition server_logout_request :: "string \<Rightarrow> state \<Rightarrow> fault + (state \<times> sends)" where
  "server_logout_request client_ip st =
     (case hm_get (users st) client_ip of
        None \<Rightarrow> Inr (st, [])
      | Some user \<Rightarrow> logout_user user (st\<lparr>users := hm_remove (users st) client_ip\<rparr>))"

subsection \<open>Soft state: removing inactive users and servers\<close>

fun logout_inactive_loop :: "int \<Rightarrow> User list \<Rightarrow> state \<Rightarrow> fault + (state \<times> sends)" where
  "logout_inactive_loop now [] st = Inr (st, [])"
| "logout_inactive_loop now (user # u_list) st =
     (if is_inactive now (u_last_min user) then
        and_then (logout_user user (st\<lparr>users := hm_remove (users st) (u_ip_addr user)\<rparr>))
          (logout_inactive_loop now u_list)
      else logout_inactive_loop now u_list st)"

definition logout_inactive_users :: "int \<Rightarrow> state \<Rightarrow> fault + (state \<times> sends)" where
  "logout_inactive_users now st =
     (if hm_isEmpty (users st) then Inr (st, [])
      else logout_inactive_loop now (hm_entryArray (users st)) st)"

text \<open>
  \<open>remove_server\<close> takes the snapshot \<open>chs\<close> of the routing table's keys that
  \<open>remove_inactive_servers\<close> made before its loop; the model reads the names the
  snapshot held when it was made.
\<close>

fun remove_server :: "string \<Rightarrow> string list \<Rightarrow> state \<Rightarrow> fault + (state \<times> sends)" where
  "remove_server ip [] st = Inr (st, [])"
| "remove_server ip (ch # chs) st =
     (case hm_get (r_table st) ch of
        None \<Rightarrow> remove_server ip chs st
      | Some s_list \<Rightarrow>
          if ip \<in> set s_list then
            and_then
              (case remove_server_leaf ch
                      (st\<lparr>r_table := hm_put (r_table st) ch
                            (ll_remove_first (\<lambda>server. server = ip) s_list)\<rparr>) of
                 Inl e \<Rightarrow> Inl e
               | Inr (leaf, st', out) \<Rightarrow> Inr (st', out))
              (remove_server ip chs)
          else remove_server ip chs st)"

fun remove_inactive_loop ::
  "int \<Rightarrow> string list \<Rightarrow> Server list \<Rightarrow> state \<Rightarrow> fault + (state \<times> sends)" where
  "remove_inactive_loop now chs [] st = Inr (st, [])"
| "remove_inactive_loop now chs (server # s_list) st =
     (if is_inactive now (s_last_min server) then
        and_then
          (remove_server (s_ip_addr server) chs
             (st\<lparr>neighbors := hm_remove (neighbors st) (s_ip_addr server)\<rparr>))
          (remove_inactive_loop now chs s_list)
      else remove_inactive_loop now chs s_list st)"

definition remove_inactive_servers :: "int \<Rightarrow> state \<Rightarrow> fault + (state \<times> sends)" where
  "remove_inactive_servers now st =
     (if hm_isEmpty (neighbors st) then Inr (st, [])
      else remove_inactive_loop now (hm_keyArray (r_table st))
             (hm_entryArray (neighbors st)) st)"

subsection \<open>Server-to-server requests\<close>

text \<open>
  The gather requests collect names in a temporary HashMap used as a set: a name is
  put only when \<^verbatim>\<open>hm_containsKey\<close> does not find it.
\<close>

definition set_add :: "string list \<Rightarrow> string \<Rightarrow> string list" where
  "set_add keys k = (if k \<in> set keys then keys else keys @ [k])"

definition visit_set :: "bool \<Rightarrow> string \<Rightarrow> string list \<Rightarrow> state \<Rightarrow> string list" where
  "visit_set unique client_ip to_visit st =
     foldl set_add
       (if unique
        then foldl set_add [] (filter (\<lambda>ip. ip \<noteq> client_ip) (hm_keyArray (neighbors st)))
        else [])
       to_visit"

text \<open>
  The gather handlers stop without sending when \<^verbatim>\<open>hm_keyArray\<close> returns
  NULL, which it does for an empty map as well as when allocation fails.
\<close>

definition s2s_verify_request ::
  "64 word \<Rightarrow> string \<Rightarrow> string \<Rightarrow> string list \<Rightarrow> string \<Rightarrow> state \<Rightarrow> state \<times> sends" where
  "s2s_verify_request ident req_username client to_visit client_ip st =
     (let unique = id_unique ident st;
          st1 = (if unique then queue_id ident st else st);
          res = \<not> (unique \<and> username_taken req_username st1)
      in if hm_isEmpty (neighbors st1) then (st1, [])
         else
           let ip_set = visit_set unique client_ip to_visit st1
           in if ip_set = [] \<or> \<not> res then
                (case get_addr client of
                   None \<Rightarrow> (st1, [])
                 | Some addr \<Rightarrow> (st1, [(addr, TXT_VERIFY res)]))
              else
                (case get_addr (hd ip_set) of
                   None \<Rightarrow> (st1, [])
                 | Some addr \<Rightarrow>
                     (st1, [(addr, REQ_S2S_VERIFY ident req_username client (tl ip_set))])))"

definition s2s_list_request ::
  "64 word \<Rightarrow> string \<Rightarrow> string list \<Rightarrow> string list \<Rightarrow> string \<Rightarrow> state \<Rightarrow> state \<times> sends" where
  "s2s_list_request ident client chs to_visit client_ip st =
     (let ch_set0 = foldl set_add [] chs;
          unique = id_unique ident st;
          st1 = (if unique then queue_id ident st else st);
          ch_set = (if unique then foldl set_add ch_set0 (hm_keyArray (channels st1))
                    else ch_set0)
      in if hm_isEmpty (neighbors st1) then (st1, [])
         else
           let ip_set = visit_set unique client_ip to_visit st1
           in if ip_set = [] then
                (case get_addr client of
                   None \<Rightarrow> (st1, [])
                 | Some addr \<Rightarrow>
                     if ch_set = [] then (st1, [])
                     else (st1, [(addr, TXT_LIST (map (take (CHANNEL_MAX - 1)) ch_set))]))
              else if ch_set = [] then (st1, [])
              else
                (case get_addr (hd ip_set) of
                   None \<Rightarrow> (st1, [])
                 | Some addr \<Rightarrow>
                     (st1, [(addr, REQ_S2S_LIST ident (take (IP_MAX - 1) client)
                                     (map (take (CHANNEL_MAX - 1)) ch_set)
                                     (map (take (CHANNEL_MAX - 1)) (tl ip_set)))])))"

definition s2s_who_request ::
  "64 word \<Rightarrow> string \<Rightarrow> string \<Rightarrow> string list \<Rightarrow> string list \<Rightarrow> string \<Rightarrow> state
     \<Rightarrow> state \<times> sends" where
  "s2s_who_request ident channel client unames0 to_visit client_ip st =
     (let unique = id_unique ident st;
          st1 = (if unique then queue_id ident st else st);
          unames = unames0 @
            (if unique
             then (case hm_get (channels st1) channel of
                     Some temp \<Rightarrow> map m_username temp
                   | None \<Rightarrow> [])
             else [])
      in if hm_isEmpty (neighbors st1) then (st1, [])
         else
           let ip_set = visit_set unique client_ip to_visit st1
           in if ip_set = [] then
                (case get_addr client of
                   None \<Rightarrow> (st1, [])
                 | Some addr \<Rightarrow>
                     if unames = [] \<and> channel \<noteq> DEFAULT_CHANNEL then
                       (st1, server_send_error addr
                               (''No channel by the name '' @ channel @ ''.''))
                     else (st1, [(addr, TXT_WHO (take (USERNAME_MAX - 1) channel)
                                          (map (take (USERNAME_MAX - 1)) unames))]))
              else
                (case get_addr (hd ip_set) of
                   None \<Rightarrow> (st1, [])
                 | Some addr \<Rightarrow>
                     (st1, [(addr, REQ_S2S_WHO ident (take (CHANNEL_MAX - 1) channel)
                                     (take (IP_MAX - 1) client)
                                     (map (take (USERNAME_MAX - 1)) unames)
                                     (map (take (USERNAME_MAX - 1)) (tl ip_set)))])))"

definition s2s_join_request :: "string \<Rightarrow> string \<Rightarrow> int \<Rightarrow> state \<Rightarrow> state \<times> sends" where
  "s2s_join_request req_channel client_ip now st =
     (case hm_get (neighbors st) client_ip of
        None \<Rightarrow> (st, [])
      | Some sender0 \<Rightarrow>
          let sender = update_server_time now sender0;
              st0 = st\<lparr>neighbors := hm_put (neighbors st) client_ip sender\<rparr>
          in case hm_get (r_table st0) req_channel of
               Some servers \<Rightarrow>
                 if client_ip \<in> set servers then (st0, [])
                 else (st0\<lparr>r_table := hm_put (r_table st0) req_channel
                              (ll_add servers (s_ip_addr sender))\<rparr>, [])
             | None \<Rightarrow>
                 (case server_join_channel req_channel st0 of
                    None \<Rightarrow> (st0, [])
                  | Some st1 \<Rightarrow> (st1, neighbor_flood_channel req_channel client_ip st1)))"

definition s2s_leave_request :: "string \<Rightarrow> string \<Rightarrow> state \<Rightarrow> fault + (state \<times> sends)" where
  "s2s_leave_request req_channel client_ip st =
     (case hm_get (r_table st) req_channel of
        None \<Rightarrow> Inr (st, [])
      | Some servers \<Rightarrow>
          (case remove_server_leaf req_channel
                  (st\<lparr>r_table := hm_put (r_table st) req_channel
                        (ll_remove_first (\<lambda>server. server = client_ip) servers)\<rparr>) of
             Inl e \<Rightarrow> Inl e
           | Inr (leaf, st', out) \<Rightarrow> Inr (st', out)))"

definition s2s_say_request ::
  "64 word \<Rightarrow> string \<Rightarrow> string \<Rightarrow> string \<Rightarrow> string \<Rightarrow> int \<Rightarrow> state
     \<Rightarrow> fault + (state \<times> sends)" where
  "s2s_say_request ident req_channel req_username req_text client_ip now st =
     (case hm_get (neighbors st) client_ip of
        None \<Rightarrow> Inr (st, [])
      | Some sender0 \<Rightarrow>
          let sender = update_server_time now sender0;
              st0 = st\<lparr>neighbors := hm_put (neighbors st) client_ip sender\<rparr>
          in case hm_get (r_table st0) req_channel of
               None \<Rightarrow> Inr (st0, [])
             | Some servers \<Rightarrow>
                 if \<not> id_unique ident st0 then
                   Inr (st0, [(s_ip_addr sender,
                               REQ_S2S_LEAVE (take (CHANNEL_MAX - 1) req_channel))])
                 else
                   let st1 = queue_id ident st0;
                       out = (case hm_get (channels st1) req_channel of
                                Some user_list \<Rightarrow>
                                  broadcast_message user_list req_username req_channel req_text
                              | None \<Rightarrow> [])
                   in case remove_server_leaf req_channel st1 of
                        Inl e \<Rightarrow> Inl e
                      | Inr (leaf, st2, out') \<Rightarrow>
                          if leaf then Inr (st2, out @ out')
                          else Inr (st2, out @ out' @
                                 map (\<lambda>server.
                                        (server, REQ_S2S_SAY ident req_channel req_username req_text))
                                   (filter (\<lambda>server. server \<noteq> s_ip_addr sender) servers)))"

text \<open>
  In \<open>s2s_leaf_request\<close> the S2S LEAVE that answers a duplicate ID goes to
  \<^verbatim>\<open>server\<close>, the variable of the search loop: the sender when the loop
  found it, the last server of the list when it did not, and never set when the list
  is empty. When the ID is new, no client listens and the routing table has no entry,
  the forwarding loop runs over \<^verbatim>\<open>user_list\<close> as the lookup in the channels
  left it: the empty list of the channel, or never set.
\<close>

definition s2s_leaf_request ::
  "64 word \<Rightarrow> string \<Rightarrow> string \<Rightarrow> state \<Rightarrow> fault + (state \<times> sends)" where
  "s2s_leaf_request ident channel client_ip st =
     (case remove_server_leaf channel st of
        Inl e \<Rightarrow> Inl e
      | Inr (leaf, st1, out) \<Rightarrow>
          if leaf then Inr (st1, out)
          else if \<not> id_unique ident st1 then
            (case hm_get (r_table st1) channel of
               None \<Rightarrow> Inr (st1, [])
             | Some [] \<Rightarrow> Inl UninitialisedRead
             | Some user_list \<Rightarrow>
                 let server = (if client_ip \<in> set user_list then client_ip else last user_list);
                     user_list' = ll_remove_first (\<lambda>s. s = client_ip) user_list;
                     st2 = (if user_list' = []
                            then st1\<lparr>r_table := hm_remove (r_table st1) channel\<rparr>
                            else st1\<lparr>r_table := hm_put (r_table st1) channel user_list'\<rparr>)
                 in Inr (st2, [(server, REQ_S2S_LEAVE (take (CHANNEL_MAX - 1) channel))]))
          else
            let st2 = queue_id ident st1
            in if clients_listening channel st2 then Inr (st2, [])
               else
                 (case hm_get (r_table st2) channel of
                    Some user_list \<Rightarrow>
                      Inr (st2, map (\<lambda>server. (server, REQ_S2S_LEAF ident channel))
                                  (filter (\<lambda>server. server \<noteq> client_ip) user_list))
                  | None \<Rightarrow>
                      (case hm_get (channels st2) channel of
                         Some user_list \<Rightarrow> Inr (st2, [])
                       | None \<Rightarrow> Inl UninitialisedRead)))"

definition s2s_keep_alive_request :: "string \<Rightarrow> int \<Rightarrow> state \<Rightarrow> state \<times> sends" where
  "s2s_keep_alive_request client_ip now st =
     (case hm_get (neighbors st) client_ip of
        None \<Rightarrow> (st, [])
      | Some server \<Rightarrow>
          (st\<lparr>neighbors := hm_put (neighbors st) client_ip (update_server_time now server)\<rparr>, []))"

subsection \<open>The main loop\<close>

text \<open>
  The state \<open>main\<close> builds before its loop: the default channel with no members,
  the neighbours of the command line, an ID cache of zeros.
\<close>

definition add_neighbors :: "string list \<Rightarrow> int \<Rightarrow> Server hashmap" where
  "add_neighbors args now = foldl (\<lambda>hm ip. hm_put hm ip (malloc_server ip now)) [] args"

definition startup :: "string \<Rightarrow> string list \<Rightarrow> int \<Rightarrow> 64 word option list \<Rightarrow> state" where
  "startup addr args now rnd =
     \<lparr>server_addr = addr, users = [], channels = hm_put [] DEFAULT_CHANNEL [],
      neighbors = add_neighbors args now, r_table = [],
      id_cache = replicate MSGQ_SIZE 0, curr_index = 0, mode = 0, urandom = rnd\<rparr>"

text \<open>The \<^verbatim>\<open>switch\<close> on the packet type; any other packet is ignored.\<close>

fun dispatch :: "packet \<Rightarrow> string \<Rightarrow> int \<Rightarrow> state \<Rightarrow> fault + (state \<times> sends)" where
  "dispatch (REQ_VERIFY name) client_ip now st = Inr (server_verify_request name client_ip st)"
| "dispatch (REQ_LOGIN name) client_ip now st = Inr (server_login_request name client_ip now st)"
| "dispatch REQ_LOGOUT client_ip now st = server_logout_request client_ip st"
| "dispatch (REQ_JOIN ch) client_ip now st = Inr (server_join_request ch client_ip now st)"
| "dispatch (REQ_LEAVE ch) client_ip now st = server_leave_request ch client_ip now st"
| "dispatch (REQ_SAY ch txt) client_ip now st = Inr (server_say_request ch txt client_ip now st)"
| "dispatch REQ_LIST client_ip now st = Inr (server_list_request client_ip now st)"
| "dispatch (REQ_WHO ch) client_ip now st = Inr (server_who_request ch client_ip now st)"
| "dispatch REQ_KEEP_ALIVE client_ip now st = Inr (server_keep_alive_request client_ip now st)"
| "dispatch (REQ_S2S_VERIFY ident name client to_visit) client_ip now st =
     Inr (s2s_verify_request ident name client to_visit client_ip st)"
| "dispatch (REQ_S2S_JOIN ch) client_ip now st = Inr (s2s_join_request ch client_ip now st)"
| "dispatch (REQ_S2S_LEAVE ch) client_ip now st = s2s_leave_request ch client_ip st"
| "dispatch (REQ_S2S_SAY ident ch name txt) client_ip now st =
     s2s_say_request ident ch name txt client_ip now st"
| "dispatch (REQ_S2S_LIST ident client chs to_visit) client_ip now st =
     Inr (s2s_list_request ident client chs to_visit client_ip st)"
| "dispatch (REQ_S2S_WHO ident ch client unames to_visit) client_ip now st =
     Inr (s2s_who_request ident ch client unames to_visit client_ip st)"
| "dispatch (REQ_S2S_LEAF ident ch) client_ip now st = s2s_leaf_request ident ch client_ip st"
| "dispatch REQ_S2S_KEEP_ALIVE client_ip now st = Inr (s2s_keep_alive_request client_ip now st)"
| "dispatch other client_ip now st = Inr (st, [])"

text \<open>The receive timeout: refresh the soft state, and every \<open>REFRESH_RATE\<close> ticks scan
  for inactive users and servers.\<close>

definition timeout_tick :: "int \<Rightarrow> state \<Rightarrow> fault + (state \<times> sends)" where
  "timeout_tick now st =
     (let out = flood_s2s_keep_alive st @ refresh_s2s_joins st;
          st1 = st\<lparr>mode := mode st + 1\<rparr>
      in if mode st1 \<ge> REFRESH_RATE then
           and_then (and_then (and_then (Inr (st1, out)) (logout_inactive_users now))
                       (remove_inactive_servers now))
             (\<lambda>st'. Inr (st'\<lparr>mode := 0\<rparr>, []))
         else Inr (st1, out))"

datatype event = Timeout int | Datagram string int packet

fun server_step :: "event \<Rightarrow> state \<Rightarrow> fault + (state \<times> sends)" where
  "server_step (Timeout now) st = timeout_tick now st"
| "server_step (Datagram client_ip now pkt) st = dispatch pkt client_ip now st"

text \<open>
  The states the server passes through: the state after start-up, and every state a
  handler leaves when it runs to its end in a state already reached.
\<close>

inductive reachable :: "state \<Rightarrow> bool" where
  start: "reachable (startup addr args now rnd)"
| step: "reachable st \<Longrightarrow> server_step ev st = Inr (st', out) \<Longrightarrow> reachable st'"

subsection \<open>The invariant of the main loop\<close>

text \<open>
  What every state of the server satisfies: the ID cache has its \<open>MSGQ_SIZE\<close>
  slots, the index points into it, the default channel is a key of the channels, and
  every user and every neighbour is stored under the address its struct holds.
\<close>

definition keyed :: "('v \<Rightarrow> string) \<Rightarrow> 'v hashmap \<Rightarrow> bool" where
  "keyed f hm = list_all (\<lambda>(k, v). f v = k) hm"

definition server_inv :: "state \<Rightarrow> bool" where
  "server_inv st \<longleftrightarrow>
     length (id_cache st) = MSGQ_SIZE \<and> curr_index st < MSGQ_SIZE \<and>
     hm_containsKey (channels st) DEFAULT_CHANNEL \<and>
     keyed u_ip_addr (users st) \<and> keyed s_ip_addr (neighbors st)"

subsection \<open>Predicates of the specification\<close>

text \<open>
  The leaf test as the specification words it (section 4.5): "this node has no peers,
  or the routing-table entry for c has fewer than 2 entries and the local channel
  membership is empty". It is compared below with the test \<open>remove_server_leaf\<close>
  makes.
\<close>

definition leaf_as_specified :: "string \<Rightarrow> state \<Rightarrow> bool" where
  "leaf_as_specified c st =
     (hm_isEmpty (neighbors st) \<or>
      (length (case hm_get (r_table st) c of Some servers \<Rightarrow> servers | None \<Rightarrow> []) < 2 \<and>
       (case hm_get (channels st) c of Some user_list \<Rightarrow> user_list | None \<Rightarrow> []) = []))"

text \<open>The client requests other than LOGIN and VERIFY.\<close>

fun needs_login :: "packet \<Rightarrow> bool" where
  "needs_login (REQ_JOIN ch) = True"
| "needs_login (REQ_LEAVE ch) = True"
| "needs_login (REQ_SAY ch txt) = True"
| "needs_login REQ_LIST = True"
| "needs_login (REQ_WHO ch) = True"
| "needs_login REQ_KEEP_ALIVE = True"
| "needs_login REQ_LOGOUT = True"
| "needs_login other = False"

section \<open>Properties\<close>

subsection \<open>Keys of a HashMap\<close>


lemma hm_containsKey_put [simp]:
  "hm_containsKey (hm_put hm k v) k' \<longleftrightarrow> k' = k \<or> hm_containsKey hm k'"
  by (auto simp: hm_containsKey_def hm_put_def dom_update)

lemma hm_containsKey_remove [simp]:
  "hm_containsKey (hm_remove hm k) k' \<longleftrightarrow> k' \<noteq> k \<and> hm_containsKey hm k'"
  by (auto simp: hm_containsKey_def hm_remove_def delete_keys)

subsection \<open>Every handler keeps the invariant\<close>

lemma keyed_get: "keyed f hm \<Longrightarrow> hm_get hm k = Some v \<Longrightarrow> f v = k"
  by (auto simp: keyed_def hm_get_def list_all_iff dest: map_of_SomeD)

lemma keyed_put: "keyed f hm \<Longrightarrow> f v = k \<Longrightarrow> keyed f (hm_put hm k v)"
  by (induction hm) (auto simp: keyed_def hm_put_def)

lemma keyed_remove: "keyed f hm \<Longrightarrow> keyed f (hm_remove hm k)"
  by (auto simp: keyed_def hm_remove_def AList.delete_eq list_all_iff)

lemma user_keyed:
  "server_inv st \<Longrightarrow> hm_get (users st) ip = Some u \<Longrightarrow> u_ip_addr u = ip"
  by (auto simp: server_inv_def dest: keyed_get)

lemma neighbor_keyed:
  "server_inv st \<Longrightarrow> hm_get (neighbors st) ip = Some sv \<Longrightarrow> s_ip_addr sv = ip"
  by (auto simp: server_inv_def dest: keyed_get)

lemma update_time_ip [simp]:
  "u_ip_addr (update_user_time now u) = u_ip_addr u"
  "s_ip_addr (update_server_time now sv) = s_ip_addr sv"
  by (simp_all add: update_user_time_def update_server_time_def)

lemma server_inv_update [simp]:
  "server_inv (st\<lparr>urandom := a\<rparr>) = server_inv st"
  "server_inv (st\<lparr>r_table := d\<rparr>) = server_inv st"
  "server_inv (st\<lparr>mode := e\<rparr>) = server_inv st"
  "server_inv (st\<lparr>channels := ch\<rparr>) \<longleftrightarrow>
     length (id_cache st) = MSGQ_SIZE \<and> curr_index st < MSGQ_SIZE \<and>
     hm_containsKey ch DEFAULT_CHANNEL \<and>
     keyed u_ip_addr (users st) \<and> keyed s_ip_addr (neighbors st)"
  "server_inv (st\<lparr>users := us\<rparr>) \<longleftrightarrow>
     length (id_cache st) = MSGQ_SIZE \<and> curr_index st < MSGQ_SIZE \<and>
     hm_containsKey (channels st) DEFAULT_CHANNEL \<and>
     keyed u_ip_addr us \<and> keyed s_ip_addr (neighbors st)"
  "server_inv (st\<lparr>neighbors := nb\<rparr>) \<longleftrightarrow>
     length (id_cache st) = MSGQ_SIZE \<and> curr_index st < MSGQ_SIZE \<and>
     hm_containsKey (channels st) DEFAULT_CHANNEL \<and>
     keyed u_ip_addr (users st) \<and> keyed s_ip_addr nb"
  by (simp_all add: server_inv_def)

lemma queue_id_inv: "server_inv st \<Longrightarrow> server_inv (queue_id x st)"
  by (auto simp: server_inv_def queue_id_def Let_def)

lemma generate_id_inv: "server_inv st \<Longrightarrow> generate_id st = (x, st') \<Longrightarrow> server_inv st'"
  unfolding generate_id_def
  by (auto split: list.splits option.splits intro: queue_id_inv)

lemma remove_server_leaf_inv:
  "server_inv st \<Longrightarrow> remove_server_leaf c st = Inr (b, st', out) \<Longrightarrow> server_inv st'"
  unfolding remove_server_leaf_def Let_def
  by (auto split: if_splits option.splits list.splits)

lemma send_leaf_check_inv:
  "server_inv st \<Longrightarrow> send_leaf_check c st = Inr (st', out) \<Longrightarrow> server_inv st'"
  unfolding send_leaf_check_def Let_def
  by (auto split: if_splits option.splits prod.splits dest: generate_id_inv)

lemma and_then_inv:
  assumes "and_then r f = Inr (st', out)"
    and "\<And>s o1. r = Inr (s, o1) \<Longrightarrow> P s"
    and "\<And>s s' o2. P s \<Longrightarrow> f s = Inr (s', o2) \<Longrightarrow> P s'"
  shows "P st'"
  using assms unfolding and_then_def
  by (auto split: sum.splits prod.splits)

lemma leave_sub_tree_inv:
  assumes "server_inv st" "leave_sub_tree c st = Inr (st', out)"
  shows "server_inv st'"
proof (cases "remove_server_leaf c st")
  case (Inl e)
  then show ?thesis using assms(2) by (simp add: leave_sub_tree_def)
next
  case (Inr r)
  obtain leaf st1 out1 where r: "r = (leaf, st1, out1)" by (cases r) auto
  have i1: "server_inv st1" using remove_server_leaf_inv[OF assms(1)] Inr r by simp
  show ?thesis
    using assms(2) Inr r i1
    by (auto simp: leave_sub_tree_def and_then_def split: if_splits sum.splits prod.splits
        dest: send_leaf_check_inv)
qed

lemma remove_empty_channel_inv:
  "server_inv st \<Longrightarrow> server_inv (remove_empty_channel c l st)"
  by (auto simp: remove_empty_channel_def server_inv_def)

lemma server_verify_request_inv:
  "server_inv st \<Longrightarrow> server_verify_request n ip st = (st', out) \<Longrightarrow> server_inv st'"
  unfolding server_verify_request_def Let_def
  by (auto split: if_splits option.splits prod.splits dest: generate_id_inv)

lemma server_login_request_inv:
  assumes inv: "server_inv st" and run: "server_login_request n ip now st = (st', out)"
  shows "server_inv st'"
  using run inv inv[unfolded server_inv_def]
  unfolding server_login_request_def Let_def
  by (auto simp: malloc_user_def intro!: keyed_put)

lemma server_join_channel_inv:
  "server_inv st \<Longrightarrow> server_join_channel c st = Some st' \<Longrightarrow> server_inv st'"
  unfolding server_join_channel_def by (auto split: if_splits)

lemma server_join_request_inv:
  assumes inv: "server_inv st" and run: "server_join_request c ip now st = (st', out)"
  shows "server_inv st'"
  using run inv inv[unfolded server_inv_def] user_keyed[OF inv] neighbor_keyed[OF inv]
  unfolding server_join_request_def Let_def
  by (auto split: if_splits option.splits prod.splits intro!: keyed_put keyed_remove simp: server_join_channel_def)

lemma server_leave_request_inv:
  assumes inv: "server_inv st" and run: "server_leave_request c ip now st = Inr (st', out)"
  shows "server_inv st'"
  using run inv inv[unfolded server_inv_def] user_keyed[OF inv]
  unfolding server_leave_request_def Let_def
  by (auto split: if_splits option.splits
      elim!: leave_sub_tree_inv[rotated] intro!: remove_empty_channel_inv keyed_put)

lemma server_say_request_inv:
  assumes inv: "server_inv st" and run: "server_say_request c t ip now st = (st', out)"
  shows "server_inv st'"
  using run inv inv[unfolded server_inv_def] user_keyed[OF inv] neighbor_keyed[OF inv]
  unfolding server_say_request_def Let_def
  by (auto split: if_splits option.splits prod.splits intro!: keyed_put keyed_remove dest!: generate_id_inv[rotated])

lemma server_list_request_inv:
  assumes inv: "server_inv st" and run: "server_list_request ip now st = (st', out)"
  shows "server_inv st'"
  using run inv inv[unfolded server_inv_def] user_keyed[OF inv] neighbor_keyed[OF inv]
  unfolding server_list_request_def Let_def
  by (auto split: if_splits option.splits prod.splits intro!: keyed_put keyed_remove dest!: generate_id_inv[rotated])

lemma server_who_request_inv:
  assumes inv: "server_inv st" and run: "server_who_request c ip now st = (st', out)"
  shows "server_inv st'"
  using run inv inv[unfolded server_inv_def] user_keyed[OF inv] neighbor_keyed[OF inv]
  unfolding server_who_request_def Let_def
  by (auto split: if_splits option.splits prod.splits intro!: keyed_put keyed_remove dest!: generate_id_inv[rotated])

lemma server_keep_alive_request_inv:
  assumes inv: "server_inv st" and run: "server_keep_alive_request ip now st = (st', out)"
  shows "server_inv st'"
  using run inv inv[unfolded server_inv_def] user_keyed[OF inv] neighbor_keyed[OF inv]
  unfolding server_keep_alive_request_def Let_def
  by (auto split: option.splits intro!: keyed_put keyed_remove)

lemma logout_channel_inv:
  assumes inv: "server_inv st" and run: "logout_channel ip c st = Inr (st', out)"
  shows "server_inv st'"
  using run inv inv[unfolded server_inv_def] unfolding logout_channel_def Let_def
  by (auto split: option.splits
      elim!: leave_sub_tree_inv[rotated] intro!: remove_empty_channel_inv)

lemma logout_channels_inv:
  "server_inv st \<Longrightarrow> logout_channels ip cs st = Inr (st', out) \<Longrightarrow> server_inv st'"
proof (induction cs arbitrary: st st' out)
  case Nil
  then show ?case by simp
next
  case (Cons c cs)
  from Cons.prems(2) have "and_then (logout_channel ip c st) (logout_channels ip cs) = Inr (st', out)"
    by simp
  then show ?case
  proof (rule and_then_inv)
    show "\<And>s o1. logout_channel ip c st = Inr (s, o1) \<Longrightarrow> server_inv s"
      using logout_channel_inv[OF Cons.prems(1)] .
    show "\<And>s s' o2. server_inv s \<Longrightarrow> logout_channels ip cs s = Inr (s', o2) \<Longrightarrow> server_inv s'"
      using Cons.IH .
  qed
qed

lemma logout_user_inv:
  "server_inv st \<Longrightarrow> logout_user u st = Inr (st', out) \<Longrightarrow> server_inv st'"
  unfolding logout_user_def by (rule logout_channels_inv)

lemma server_logout_request_inv:
  assumes inv: "server_inv st" and run: "server_logout_request ip st = Inr (st', out)"
  shows "server_inv st'"
  using run inv inv[unfolded server_inv_def]
  unfolding server_logout_request_def
  by (auto split: option.splits elim!: logout_user_inv[rotated] intro!: keyed_remove)

lemma logout_inactive_loop_inv:
  "server_inv st \<Longrightarrow> logout_inactive_loop now us st = Inr (st', out) \<Longrightarrow> server_inv st'"
proof (induction us arbitrary: st st' out)
  case Nil
  then show ?case by simp
next
  case (Cons u us)
  show ?case
  proof (cases "is_inactive now (u_last_min u)")
    case True
    with Cons.prems(2) have
      "and_then (logout_user u (st\<lparr>users := hm_remove (users st) (u_ip_addr u)\<rparr>))
         (logout_inactive_loop now us) = Inr (st', out)"
      by simp
    then show ?thesis
    proof (rule and_then_inv)
      show "\<And>s o1. logout_user u (st\<lparr>users := hm_remove (users st) (u_ip_addr u)\<rparr>) = Inr (s, o1)
              \<Longrightarrow> server_inv s"
        using logout_user_inv[of "st\<lparr>users := hm_remove (users st) (u_ip_addr u)\<rparr>" u]
          Cons.prems(1) Cons.prems(1)[unfolded server_inv_def]
        by (auto intro!: keyed_remove)
      show "\<And>s s' o2. server_inv s \<Longrightarrow> logout_inactive_loop now us s = Inr (s', o2) \<Longrightarrow> server_inv s'"
        using Cons.IH .
    qed
  next
    case False
    then show ?thesis using Cons by simp
  qed
qed

lemma logout_inactive_users_inv:
  "server_inv st \<Longrightarrow> logout_inactive_users now st = Inr (st', out) \<Longrightarrow> server_inv st'"
  unfolding logout_inactive_users_def
  by (auto split: if_splits elim: logout_inactive_loop_inv)

lemma remove_server_inv:
  "server_inv st \<Longrightarrow> remove_server ip chs st = Inr (st', out) \<Longrightarrow> server_inv st'"
proof (induction chs arbitrary: st st' out)
  case Nil
  then show ?case by simp
next
  case (Cons ch chs)
  show ?case
  proof (cases "hm_get (r_table st) ch")
    case None
    then show ?thesis using Cons by simp
  next
    case (Some s_list)
    show ?thesis
    proof (cases "ip \<in> set s_list")
      case False
      then show ?thesis using Cons Some by simp
    next
      case True
      let ?st1 = "st\<lparr>r_table := hm_put (r_table st) ch
                      (ll_remove_first (\<lambda>server. server = ip) s_list)\<rparr>"
      let ?r = "case remove_server_leaf ch ?st1 of
                  Inl e \<Rightarrow> Inl e | Inr (leaf, st', out) \<Rightarrow> Inr (st', out)"
      from Cons.prems(2) Some True
      have "and_then ?r (remove_server ip chs) = Inr (st', out)" by simp
      then show ?thesis
      proof (rule and_then_inv)
        fix s o1 assume "?r = Inr (s, o1)"
        then obtain leaf where "remove_server_leaf ch ?st1 = Inr (leaf, s, o1)"
          by (auto split: sum.splits)
        moreover have "server_inv ?st1" using Cons.prems(1) by simp
        ultimately show "server_inv s" using remove_server_leaf_inv by blast
      next
        show "\<And>s s' o2. server_inv s \<Longrightarrow> remove_server ip chs s = Inr (s', o2) \<Longrightarrow> server_inv s'"
          using Cons.IH .
      qed
    qed
  qed
qed

lemma remove_inactive_loop_inv:
  "server_inv st \<Longrightarrow> remove_inactive_loop now chs ss st = Inr (st', out) \<Longrightarrow> server_inv st'"
proof (induction ss arbitrary: st st' out)
  case Nil
  then show ?case by simp
next
  case (Cons sv ss)
  show ?case
  proof (cases "is_inactive now (s_last_min sv)")
    case True
    let ?st1 = "st\<lparr>neighbors := hm_remove (neighbors st) (s_ip_addr sv)\<rparr>"
    from Cons.prems(2) True
    have "and_then (remove_server (s_ip_addr sv) chs ?st1) (remove_inactive_loop now chs ss)
            = Inr (st', out)"
      by simp
    then show ?thesis
    proof (rule and_then_inv)
      have "server_inv ?st1"
        using Cons.prems(1) Cons.prems(1)[unfolded server_inv_def] by (auto intro!: keyed_remove)
      then show "\<And>s o1. remove_server (s_ip_addr sv) chs ?st1 = Inr (s, o1) \<Longrightarrow> server_inv s"
        using remove_server_inv by blast
      show "\<And>s s' o2. server_inv s \<Longrightarrow> remove_inactive_loop now chs ss s = Inr (s', o2)
              \<Longrightarrow> server_inv s'"
        using Cons.IH .
    qed
  next
    case False
    then show ?thesis using Cons by simp
  qed
qed

lemma remove_inactive_servers_inv:
  "server_inv st \<Longrightarrow> remove_inactive_servers now st = Inr (st', out) \<Longrightarrow> server_inv st'"
  unfolding remove_inactive_servers_def
  by (auto split: if_splits elim: remove_inactive_loop_inv)

lemma timeout_tick_inv:
  assumes inv: "server_inv st" and run: "timeout_tick now st = Inr (st', out)"
  shows "server_inv st'"
proof (cases "mode st + 1 \<ge> REFRESH_RATE")
  case False
  then show ?thesis using run inv by (auto simp: timeout_tick_def Let_def)
next
  case True
  let ?st1 = "st\<lparr>mode := mode st + 1\<rparr>"
  let ?out = "flood_s2s_keep_alive st @ refresh_s2s_joins st"
  from run True have
    "and_then (and_then (and_then (Inr (?st1, ?out)) (logout_inactive_users now))
                (remove_inactive_servers now))
       (\<lambda>st'. Inr (st'\<lparr>mode := 0\<rparr>, [])) = Inr (st', out)"
    by (simp add: timeout_tick_def Let_def)
  then show ?thesis
  proof (rule and_then_inv)
    fix s o1
    assume "and_then (and_then (Inr (?st1, ?out)) (logout_inactive_users now))
              (remove_inactive_servers now) = Inr (s, o1)"
    then show "server_inv s"
    proof (rule and_then_inv)
      fix s2 o2
      assume "and_then (Inr (?st1, ?out)) (logout_inactive_users now) = Inr (s2, o2)"
      then show "server_inv s2"
      proof (rule and_then_inv)
        show "\<And>s o1. Inr (?st1, ?out) = Inr (s, o1) \<Longrightarrow> server_inv s"
          using inv by auto
        show "\<And>s s' o2. server_inv s \<Longrightarrow> logout_inactive_users now s = Inr (s', o2)
                \<Longrightarrow> server_inv s'"
          using logout_inactive_users_inv .
      qed
    next
      show "\<And>s s' o2. server_inv s \<Longrightarrow> remove_inactive_servers now s = Inr (s', o2)
              \<Longrightarrow> server_inv s'"
        using remove_inactive_servers_inv .
    qed
  next
    show "\<And>s s' o2. server_inv s \<Longrightarrow> Inr (s\<lparr>mode := 0\<rparr>, []) = Inr (s', o2) \<Longrightarrow> server_inv s'"
      by auto
  qed
qed

lemma s2s_verify_request_inv:
  "server_inv st \<Longrightarrow> s2s_verify_request i n c tv ip st = (st', out) \<Longrightarrow> server_inv st'"
  unfolding s2s_verify_request_def Let_def
  by (auto split: if_splits option.splits intro: queue_id_inv)

lemma s2s_list_request_inv:
  "server_inv st \<Longrightarrow> s2s_list_request i c chs tv ip st = (st', out) \<Longrightarrow> server_inv st'"
  unfolding s2s_list_request_def Let_def
  by (auto split: if_splits option.splits intro: queue_id_inv)

lemma s2s_who_request_inv:
  "server_inv st \<Longrightarrow> s2s_who_request i ch c us tv ip st = (st', out) \<Longrightarrow> server_inv st'"
  unfolding s2s_who_request_def Let_def
  by (auto split: if_splits option.splits intro: queue_id_inv)

lemma s2s_join_request_inv:
  assumes inv: "server_inv st" and run: "s2s_join_request ch ip now st = (st', out)"
  shows "server_inv st'"
  using run inv inv[unfolded server_inv_def] user_keyed[OF inv] neighbor_keyed[OF inv]
  unfolding s2s_join_request_def Let_def
  by (auto split: if_splits option.splits intro!: keyed_put keyed_remove simp: server_join_channel_def)

lemma s2s_leave_request_inv:
  "server_inv st \<Longrightarrow> s2s_leave_request ch ip st = Inr (st', out) \<Longrightarrow> server_inv st'"
  unfolding s2s_leave_request_def
  by (auto split: option.splits sum.splits dest!: remove_server_leaf_inv[rotated])

lemma s2s_say_request_inv:
  assumes inv: "server_inv st" and run: "s2s_say_request i ch n t ip now st = Inr (st', out)"
  shows "server_inv st'"
proof (cases "hm_get (neighbors st) ip")
  case None
  then show ?thesis using run inv by (simp add: s2s_say_request_def)
next
  case (Some sender0)
  let ?st0 = "st\<lparr>neighbors := hm_put (neighbors st) ip (update_server_time now sender0)\<rparr>"
  have i0: "server_inv ?st0"
    using inv inv[unfolded server_inv_def] neighbor_keyed[OF inv Some]
    by (auto intro!: keyed_put)
  have i1: "server_inv (queue_id i ?st0)" using i0 by (rule queue_id_inv)
  show ?thesis
    using run Some i0 i1 unfolding s2s_say_request_def Let_def
    by (auto split: if_splits option.splits sum.splits dest!: remove_server_leaf_inv[rotated]
        simp del: server_inv_update)
qed

lemma s2s_leaf_request_inv:
  assumes inv: "server_inv st" and run: "s2s_leaf_request i ch ip st = Inr (st', out)"
  shows "server_inv st'"
proof (cases "remove_server_leaf ch st")
  case (Inl e)
  then show ?thesis using run by (simp add: s2s_leaf_request_def)
next
  case (Inr r)
  obtain leaf st1 out1 where r: "r = (leaf, st1, out1)" by (cases r) auto
  have i1: "server_inv st1" using remove_server_leaf_inv[OF inv] Inr r by simp
  have i2: "server_inv (queue_id i st1)" using i1 by (rule queue_id_inv)
  show ?thesis
    using run Inr r i1 i2
    by (auto simp: s2s_leaf_request_def Let_def split: if_splits option.splits list.splits)
qed

lemma s2s_keep_alive_request_inv:
  assumes inv: "server_inv st" and run: "s2s_keep_alive_request ip now st = (st', out)"
  shows "server_inv st'"
  using run inv inv[unfolded server_inv_def] user_keyed[OF inv] neighbor_keyed[OF inv]
  unfolding s2s_keep_alive_request_def Let_def
  by (auto split: option.splits intro!: keyed_put keyed_remove)

lemmas handler_invs =
  server_verify_request_inv server_login_request_inv server_logout_request_inv
  server_join_request_inv server_leave_request_inv server_say_request_inv
  server_list_request_inv server_who_request_inv server_keep_alive_request_inv
  s2s_verify_request_inv s2s_join_request_inv s2s_leave_request_inv s2s_say_request_inv
  s2s_list_request_inv s2s_who_request_inv s2s_leaf_request_inv s2s_keep_alive_request_inv

lemma dispatch_inv:
  "server_inv st \<Longrightarrow> dispatch pkt ip now st = Inr (st', out) \<Longrightarrow> server_inv st'"
  by (cases pkt) (auto intro: handler_invs)

lemma server_step_inv:
  "server_inv st \<Longrightarrow> server_step ev st = Inr (st', out) \<Longrightarrow> server_inv st'"
  by (cases ev) (auto intro: dispatch_inv timeout_tick_inv)

lemma add_neighbors_keyed: "keyed s_ip_addr (add_neighbors args now)"
proof -
  have "keyed s_ip_addr hm \<Longrightarrow>
        keyed s_ip_addr (foldl (\<lambda>hm ip. hm_put hm ip (malloc_server ip now)) hm args)" for hm
  proof (induction args arbitrary: hm)
    case Nil
    then show ?case by simp
  next
    case (Cons a args)
    have "keyed s_ip_addr (hm_put hm a (malloc_server a now))"
      using Cons.prems by (auto intro!: keyed_put simp: malloc_server_def)
    then show ?case using Cons.IH by simp
  qed
  then show ?thesis by (simp add: add_neighbors_def keyed_def)
qed

lemma startup_inv: "server_inv (startup addr args now rnd)"
  using add_neighbors_keyed
  by (simp add: server_inv_def startup_def MSGQ_SIZE_def keyed_def)

lemma reachable_inv: "reachable st \<Longrightarrow> server_inv st"
  by (induction rule: reachable.induct) (auto intro: startup_inv server_step_inv)

subsection \<open>The ID cache is a ring of 48 slots\<close>

lemma queue_id_fields:
  "id_cache (queue_id x st) = (id_cache st)[curr_index st := x]"
  "curr_index st < MSGQ_SIZE \<Longrightarrow> curr_index (queue_id x st) = (curr_index st + 1) mod MSGQ_SIZE"
  by (auto simp: queue_id_def Let_def MSGQ_SIZE_def mod_Suc)

lemma ring_slots_differ:
  assumes "k < n" "n < k + MSGQ_SIZE"
  shows "(c + k) mod MSGQ_SIZE \<noteq> (c + n) mod MSGQ_SIZE"
proof
  assume eq: "(c + k) mod MSGQ_SIZE = (c + n) mod MSGQ_SIZE"
  have "c + k \<le> c + n" using assms by simp
  then have "MSGQ_SIZE dvd (c + n) - (c + k)"
    using eq mod_eq_dvd_iff_nat by metis
  then have "MSGQ_SIZE dvd n - k" by simp
  moreover have "0 < n - k" "n - k < MSGQ_SIZE" using assms by auto
  ultimately show False using nat_dvd_not_less by blast
qed

lemma ring_after_inserts:
  assumes "length (id_cache st) = MSGQ_SIZE" "curr_index st < MSGQ_SIZE"
  shows "length (id_cache (foldl (\<lambda>s x. queue_id x s) st ids)) = MSGQ_SIZE
       \<and> curr_index (foldl (\<lambda>s x. queue_id x s) st ids) = (curr_index st + length ids) mod MSGQ_SIZE
       \<and> (\<forall>k < length ids. length ids \<le> k + MSGQ_SIZE \<longrightarrow>
            id_cache (foldl (\<lambda>s x. queue_id x s) st ids) ! ((curr_index st + k) mod MSGQ_SIZE) = ids ! k)"
proof (induction ids rule: rev_induct)
  case Nil
  then show ?case using assms by simp
next
  case (snoc x xs)
  let ?s = "foldl (\<lambda>s x. queue_id x s) st xs"
  let ?c = "curr_index st"
  have len: "length (id_cache ?s) = MSGQ_SIZE" using snoc by simp
  have idx: "curr_index ?s = (?c + length xs) mod MSGQ_SIZE" using snoc by simp
  have lt: "curr_index ?s < MSGQ_SIZE" using idx by (simp add: MSGQ_SIZE_def)
  have old: "\<And>k. k < length xs \<Longrightarrow> length xs \<le> k + MSGQ_SIZE \<Longrightarrow>
               id_cache ?s ! ((?c + k) mod MSGQ_SIZE) = xs ! k"
    using snoc by simp
  have step: "foldl (\<lambda>s x. queue_id x s) st (xs @ [x]) = queue_id x ?s" by simp
  have c1: "length (id_cache (queue_id x ?s)) = MSGQ_SIZE"
    using len by (simp add: queue_id_fields(1))
  have c2: "curr_index (queue_id x ?s) = (?c + length (xs @ [x])) mod MSGQ_SIZE"
    using queue_id_fields(2)[OF lt, of x] idx by (simp add: mod_Suc_eq)
  have c3: "id_cache (queue_id x ?s) ! ((?c + k) mod MSGQ_SIZE) = (xs @ [x]) ! k"
    if k: "k < length (xs @ [x])" and near: "length (xs @ [x]) \<le> k + MSGQ_SIZE" for k
  proof (cases "k = length xs")
    case True
    then show ?thesis using len lt idx by (simp add: queue_id_fields(1))
  next
    case False
    then have kl: "k < length xs" using k by simp
    have near': "length xs < k + MSGQ_SIZE" using near by simp
    have ne: "(?c + k) mod MSGQ_SIZE \<noteq> (?c + length xs) mod MSGQ_SIZE"
      using ring_slots_differ[OF kl near'] .
    have "id_cache (queue_id x ?s) ! ((?c + k) mod MSGQ_SIZE) = id_cache ?s ! ((?c + k) mod MSGQ_SIZE)"
      using ne idx by (simp add: queue_id_fields(1))
    also have "\<dots> = xs ! k" using old[OF kl] near' by simp
    finally show ?thesis using kl by (simp add: nth_append)
  qed
  show ?case unfolding step using c1 c2 c3 by blast
qed

text \<open>
  Claim C6. In every state the server reaches, the ID cache has exactly
  \<open>MSGQ_SIZE\<close> = 48 slots and the index points into it. One insertion writes the ID
  at the index and advances the index by one modulo 48. After any sequence \<open>ids\<close>
  of insertions the cache still has 48 slots, the index has advanced by the number of
  insertions modulo 48, each of the last 48 IDs inserted is in its slot, and once 48 or
  more IDs went in, the slot under the index (the next one to be overwritten) holds the
  oldest of them.
\<close>

theorem id_cache_ring:
  assumes "reachable st"
  shows "length (id_cache st) = MSGQ_SIZE \<and> curr_index st < MSGQ_SIZE
       \<and> id_cache (queue_id x st) = (id_cache st)[curr_index st := x]
       \<and> curr_index (queue_id x st) = (curr_index st + 1) mod MSGQ_SIZE
       \<and> length (id_cache (foldl (\<lambda>s x. queue_id x s) st ids)) = MSGQ_SIZE
       \<and> curr_index (foldl (\<lambda>s x. queue_id x s) st ids) = (curr_index st + length ids) mod MSGQ_SIZE
       \<and> (\<forall>k < length ids. length ids \<le> k + MSGQ_SIZE \<longrightarrow>
            id_cache (foldl (\<lambda>s x. queue_id x s) st ids) ! ((curr_index st + k) mod MSGQ_SIZE)
              = ids ! k)
       \<and> (MSGQ_SIZE \<le> length ids \<longrightarrow>
            id_cache (foldl (\<lambda>s x. queue_id x s) st ids)
              ! curr_index (foldl (\<lambda>s x. queue_id x s) st ids)
              = ids ! (length ids - MSGQ_SIZE))"
proof -
  let ?s = "foldl (\<lambda>s x. queue_id x s) st ids"
  have ok: "length (id_cache st) = MSGQ_SIZE" "curr_index st < MSGQ_SIZE"
    using reachable_inv[OF assms] by (simp_all add: server_inv_def)
  note after = ring_after_inserts[OF ok, of ids]
  have oldest: "id_cache ?s ! curr_index ?s = ids ! (length ids - MSGQ_SIZE)"
    if full: "MSGQ_SIZE \<le> length ids"
  proof -
    let ?k = "length ids - MSGQ_SIZE"
    have k: "?k < length ids" "length ids \<le> ?k + MSGQ_SIZE"
      using full by (simp_all add: MSGQ_SIZE_def)
    have "(curr_index st + ?k) mod MSGQ_SIZE = (curr_index st + ?k + MSGQ_SIZE) mod MSGQ_SIZE"
      by simp
    also have "curr_index st + ?k + MSGQ_SIZE = curr_index st + length ids"
      using full by simp
    finally have "(curr_index st + ?k) mod MSGQ_SIZE = curr_index ?s"
      using after by simp
    then show ?thesis using after k by metis
  qed
  show ?thesis
    using ok after oldest queue_id_fields(1)[of x st] queue_id_fields(2)[OF ok(2), of x]
    by blast
qed

text \<open>The ring after three insertions into the cache of a server that just started.\<close>

theorem id_cache_ring_witness:
  "reachable (startup ''127.0.0.1:5000'' [] 0 [])
   \<and> curr_index (foldl (\<lambda>s x. queue_id x s) (startup ''127.0.0.1:5000'' [] 0 []) [11, 12, 13]) = 3
   \<and> id_cache (foldl (\<lambda>s x. queue_id x s) (startup ''127.0.0.1:5000'' [] 0 []) [11, 12, 13]) ! 1 = 12"
proof -
  let ?st = "startup ''127.0.0.1:5000'' [] 0 []"
  have r: "reachable ?st" by (rule reachable.start)
  have c: "curr_index ?st = 0" by (simp add: startup_def)
  note ring = id_cache_ring[OF r, of 0 "[11, 12, 13]"]
  from ring have "curr_index (foldl (\<lambda>s x. queue_id x s) ?st [11, 12, 13])
                    = (curr_index ?st + length [11, 12, 13 :: 64 word]) mod MSGQ_SIZE"
    by blast
  then have a: "curr_index (foldl (\<lambda>s x. queue_id x s) ?st [11, 12, 13]) = 3"
    using c by (simp add: MSGQ_SIZE_def)
  from ring have "\<forall>k < length [11, 12, 13 :: 64 word]. length [11, 12, 13 :: 64 word] \<le> k + MSGQ_SIZE \<longrightarrow>
            id_cache (foldl (\<lambda>s x. queue_id x s) ?st [11, 12, 13]) ! ((curr_index ?st + k) mod MSGQ_SIZE)
              = [11, 12, 13] ! k"
    by blast
  from this[THEN spec, of 1]
  have b: "id_cache (foldl (\<lambda>s x. queue_id x s) ?st [11, 12, 13]) ! 1 = 12"
    using c by (simp add: MSGQ_SIZE_def)
  show ?thesis using r a b by blast
qed

subsection \<open>The default channel stays\<close>

text \<open>
  Claim C7. In every state the server reaches, "Common" is a key of the map of
  channels: no request and no timeout removes it.
\<close>

theorem default_channel_never_removed:
  assumes "reachable st"
  shows "hm_containsKey (channels st) ''Common''"
  using reachable_inv[OF assms] by (simp add: server_inv_def DEFAULT_CHANNEL_def)

text \<open>
  A client logs in, joins "Common" and leaves it again: the channel is empty and still
  there.
\<close>

theorem default_channel_never_removed_witness:
  "reachable
     \<lparr>server_addr = ''127.0.0.1:5000'',
      users = [(''10.0.0.1:4000'',
                \<lparr>u_ip_addr = ''10.0.0.1:4000'', u_username = ''alice'', u_channels = [],
                 u_last_min = 0\<rparr>)],
      channels = [(''Common'', [])], neighbors = [], r_table = [],
      id_cache = replicate 48 0, curr_index = 0, mode = 0, urandom = []\<rparr>
   \<and> hm_containsKey
       (channels
         \<lparr>server_addr = ''127.0.0.1:5000'',
          users = [(''10.0.0.1:4000'',
                    \<lparr>u_ip_addr = ''10.0.0.1:4000'', u_username = ''alice'', u_channels = [],
                     u_last_min = 0\<rparr>)],
          channels = [(''Common'', [])], neighbors = [], r_table = [],
          id_cache = replicate 48 0, curr_index = 0, mode = 0, urandom = []\<rparr>)
       ''Common''"
proof -
  let ?ip = "''10.0.0.1:4000''"
  let ?s0 = "startup ''127.0.0.1:5000'' [] 0 []"
  let ?u1 = "\<lparr>u_ip_addr = ?ip, u_username = ''alice'', u_channels = [], u_last_min = 0\<rparr>"
  let ?u2 = "\<lparr>u_ip_addr = ?ip, u_username = ''alice'', u_channels = [''Common''], u_last_min = 0\<rparr>"
  let ?s1 = "?s0\<lparr>users := [(?ip, ?u1)]\<rparr>"
  let ?s2 = "?s0\<lparr>users := [(?ip, ?u2)],
                 channels := [(''Common'', [\<lparr>m_ip_addr = ?ip, m_username = ''alice''\<rparr>])]\<rparr>"
  let ?s3 = "?s0\<lparr>users := [(?ip, ?u1)], channels := [(''Common'', [])]\<rparr>"
  have r0: "reachable ?s0" by (rule reachable.start)
  have e1: "server_step (Datagram ?ip 0 (REQ_LOGIN ''alice'')) ?s0 = Inr (?s1, [])"
    by (simp add: Let_def server_login_request_def malloc_user_def hm_put_def USERNAME_MAX_def
        startup_def add_neighbors_def)
  have e2: "server_step (Datagram ?ip 0 (REQ_JOIN ''Common'')) ?s1 = Inr (?s2, [])"
    by (simp add: Let_def server_join_request_def hm_get_def hm_put_def hm_isEmpty_def
        update_user_time_def ll_add_def member_of_def CHANNEL_MAX_def startup_def
        add_neighbors_def DEFAULT_CHANNEL_def)
  have e3: "server_step (Datagram ?ip 0 (REQ_LEAVE ''Common'')) ?s2 = Inr (?s3, [])"
    by (simp add: Let_def server_leave_request_def hm_get_def hm_put_def hm_isEmpty_def
        update_user_time_def CHANNEL_MAX_def startup_def add_neighbors_def
        DEFAULT_CHANNEL_def leave_sub_tree_def remove_empty_channel_def
        remove_server_leaf_def clients_listening_def and_then_def send_leaf_check_def)
  have r3: "reachable ?s3"
    using reachable.step[OF reachable.step[OF reachable.step[OF r0 e1] e2] e3] .
  have eq: "?s3 = \<lparr>server_addr = ''127.0.0.1:5000'', users = [(?ip, ?u1)],
      channels = [(''Common'', [])], neighbors = [], r_table = [],
      id_cache = replicate 48 0, curr_index = 0, mode = 0, urandom = []\<rparr>"
    by (simp add: startup_def add_neighbors_def MSGQ_SIZE_def)
  show ?thesis
    using r3 default_channel_never_removed[OF r3] unfolding eq by blast
qed

subsection \<open>Lookups, snapshots and frames\<close>

lemma keyed_entries_keys:
  "keyed s_ip_addr hm \<Longrightarrow> map s_ip_addr (hm_entryArray hm) = hm_keyArray hm"
  by (induction hm) (auto simp: keyed_def hm_entryArray_def hm_keyArray_def)

lemma hm_keyArray_put_present:
  "hm_get hm k = Some v \<Longrightarrow> hm_keyArray (hm_put hm k v') = hm_keyArray hm"
  by (auto simp: hm_keyArray_def hm_put_def hm_get_def update_keys dest: map_of_SomeD
      intro: rev_image_eqI)

lemma hm_get_put:
  "hm_get (hm_put hm k v) k' = (if k' = k then Some v else hm_get hm k')"
  by (simp add: hm_get_def hm_put_def update_conv')

lemma hm_isEmpty_get: "hm_get hm k = Some v \<Longrightarrow> \<not> hm_isEmpty hm"
  by (auto simp: hm_isEmpty_def hm_get_def)

lemma hm_isEmpty_put [simp]: "\<not> hm_isEmpty (hm_put hm k v)"
  by (cases hm) (auto simp: hm_isEmpty_def hm_put_def)

lemma queue_id_frame [simp]:
  "server_addr (queue_id i st) = server_addr st"
  "users (queue_id i st) = users st"
  "channels (queue_id i st) = channels st"
  "neighbors (queue_id i st) = neighbors st"
  "r_table (queue_id i st) = r_table st"
  "mode (queue_id i st) = mode st"
  "urandom (queue_id i st) = urandom st"
  by (simp_all add: queue_id_def Let_def)

lemma queue_id_r_table_update:
  "queue_id i (st\<lparr>r_table := rt\<rparr>) = (queue_id i st)\<lparr>r_table := rt\<rparr>"
  by (simp add: queue_id_def Let_def)

lemma id_unique_frame [simp]:
  "id_unique i (st\<lparr>neighbors := nb\<rparr>) = id_unique i st"
  by (simp add: id_unique_def)

text \<open>
  The states of the examples: a server at 127.0.0.1:5000 that has just started with one
  neighbour, or with two. Its ID cache holds 48 zeros.
\<close>

lemma one_peer_state:
  "startup ''127.0.0.1:5000'' [''127.0.0.1:5001''] 0 [] =
     \<lparr>server_addr = ''127.0.0.1:5000'', users = [], channels = [(''Common'', [])],
      neighbors = [(''127.0.0.1:5001'', \<lparr>s_ip_addr = ''127.0.0.1:5001'', s_last_min = 0\<rparr>)],
      r_table = [], id_cache = replicate MSGQ_SIZE 0, curr_index = 0, mode = 0, urandom = []\<rparr>"
  by (simp add: startup_def add_neighbors_def hm_put_def malloc_server_def DEFAULT_CHANNEL_def)

lemma two_peer_state:
  "startup ''127.0.0.1:5000'' [''127.0.0.1:5001'', ''127.0.0.1:5002''] 0 [] =
     \<lparr>server_addr = ''127.0.0.1:5000'', users = [], channels = [(''Common'', [])],
      neighbors = [(''127.0.0.1:5001'', \<lparr>s_ip_addr = ''127.0.0.1:5001'', s_last_min = 0\<rparr>),
                   (''127.0.0.1:5002'', \<lparr>s_ip_addr = ''127.0.0.1:5002'', s_last_min = 0\<rparr>)],
      r_table = [], id_cache = replicate MSGQ_SIZE 0, curr_index = 0, mode = 0, urandom = []\<rparr>"
  by (simp add: startup_def add_neighbors_def hm_put_def malloc_server_def DEFAULT_CHANNEL_def)

text \<open>An ID that was just queued is found in the cache.\<close>

lemma queued_id_is_cached:
  assumes "length (id_cache st) = MSGQ_SIZE" and "curr_index st < MSGQ_SIZE"
  shows "\<not> id_unique i (queue_id i st)"
proof -
  have "i \<in> set ((id_cache st)[curr_index st := i])"
    using assms by (simp add: set_update_memI)
  moreover have "take MSGQ_SIZE ((id_cache st)[curr_index st := i]) = (id_cache st)[curr_index st := i]"
    using assms by simp
  ultimately show ?thesis
    by (simp add: id_unique_def queue_id_def Let_def)
qed

subsection \<open>S2S SAY\<close>

text \<open>
  Claim C1, as stated, fails where it says that a duplicate S2S SAY causes no state
  change: the handler has already stamped the sender with the current minute. The
  server is subscribed to "k" through its two neighbours, both last heard at minute 0,
  and has queued the ID 7 of a SAY. At minute 5 the SAY comes round again from
  127.0.0.1:5002: the handler answers with S2S LEAVE, and the record of that neighbour
  now holds minute 5.
\<close>

theorem s2s_say_duplicate_counterexample:
  "s2s_say_request 7 ''k'' ''alice'' ''hi'' ''127.0.0.1:5002'' 5
     (queue_id 7
        (startup ''127.0.0.1:5000'' [''127.0.0.1:5001'', ''127.0.0.1:5002''] 0 []
           \<lparr>r_table := [(''k'', [''127.0.0.1:5001'', ''127.0.0.1:5002''])]\<rparr>))
   = Inr (queue_id 7
            (startup ''127.0.0.1:5000'' [''127.0.0.1:5001'', ''127.0.0.1:5002''] 0 []
               \<lparr>r_table := [(''k'', [''127.0.0.1:5001'', ''127.0.0.1:5002''])]\<rparr>)
            \<lparr>neighbors :=
               [(''127.0.0.1:5001'', \<lparr>s_ip_addr = ''127.0.0.1:5001'', s_last_min = 0\<rparr>),
                (''127.0.0.1:5002'', \<lparr>s_ip_addr = ''127.0.0.1:5002'', s_last_min = 5\<rparr>)]\<rparr>,
          [(''127.0.0.1:5002'', REQ_S2S_LEAVE ''k'')])
   \<and> neighbors
        (queue_id 7
           (startup ''127.0.0.1:5000'' [''127.0.0.1:5001'', ''127.0.0.1:5002''] 0 []
              \<lparr>r_table := [(''k'', [''127.0.0.1:5001'', ''127.0.0.1:5002''])]\<rparr>))
       = [(''127.0.0.1:5001'', \<lparr>s_ip_addr = ''127.0.0.1:5001'', s_last_min = 0\<rparr>),
          (''127.0.0.1:5002'', \<lparr>s_ip_addr = ''127.0.0.1:5002'', s_last_min = 0\<rparr>)]"
proof -
  let ?st = "startup ''127.0.0.1:5000'' [''127.0.0.1:5001'', ''127.0.0.1:5002''] 0 []
               \<lparr>r_table := [(''k'', [''127.0.0.1:5001'', ''127.0.0.1:5002''])]\<rparr>"
  have dup: "\<not> id_unique 7 (queue_id 7 ?st)"
    by (rule queued_id_is_cached) (simp_all add: startup_def MSGQ_SIZE_def)
  have nb: "neighbors (queue_id 7 ?st)
            = [(''127.0.0.1:5001'', \<lparr>s_ip_addr = ''127.0.0.1:5001'', s_last_min = 0\<rparr>),
               (''127.0.0.1:5002'', \<lparr>s_ip_addr = ''127.0.0.1:5002'', s_last_min = 0\<rparr>)]"
    by (simp add: two_peer_state)
  have rt: "r_table (queue_id 7 ?st) = [(''k'', [''127.0.0.1:5001'', ''127.0.0.1:5002''])]"
    by simp
  show ?thesis
    using dup nb rt
    by (simp add: s2s_say_request_def Let_def hm_get_def hm_put_def update_server_time_def
        CHANNEL_MAX_def)
qed

text \<open>
  Claim C1, amended. For an S2S SAY from a known peer \<open>P\<close> for a channel \<open>c\<close> with
  a routing-table entry \<open>servers\<close>, the handler first sets the last-activity
  minute of \<open>P\<close> to the current minute (state \<open>st0\<close>). If the ID is already
  in the cache it sends S2S LEAVE for the channel to \<open>P\<close> and nothing else, and
  changes nothing else. Otherwise it queues the ID and sends TXT\_SAY to every local
  member of the channel (none when the channel has no membership list); then, if the
  entry has fewer than two servers and the channel has no local member (the server is a
  leaf), it removes the entry and sends S2S LEAVE to the first server of the entry, if
  there is one, and stops; if not, it forwards the SAY as it came to every server of
  the entry except \<open>P\<close>. The channel name in S2S LEAVE and the three strings of
  TXT\_SAY are cut to their field widths, which leaves a name that fits its field as it
  is.
\<close>

theorem s2s_say_request_behaviour:
  assumes "reachable st" and "hm_get (neighbors st) P = Some sender"
    and "hm_get (r_table st) c = Some servers"
  shows
    "(let st0 = st\<lparr>neighbors := hm_put (neighbors st) P (sender\<lparr>s_last_min := now\<rparr>)\<rparr>;
          members = (case hm_get (channels st) c of Some user_list \<Rightarrow> user_list | None \<Rightarrow> []);
          local_sends = map (\<lambda>m. (m_ip_addr m,
                          TXT_SAY (take (CHANNEL_MAX - 1) c) (take (USERNAME_MAX - 1) u)
                            (take (SAY_MAX - 1) t))) members;
          leaf = (length servers < 2 \<and> members = [])
      in s2s_say_request i c u t P now st =
           (if \<not> id_unique i st then
              Inr (st0, [(P, REQ_S2S_LEAVE (take (CHANNEL_MAX - 1) c))])
            else if leaf then
              Inr ((queue_id i st0)\<lparr>r_table := hm_remove (r_table st) c\<rparr>,
                   local_sends @
                   (case servers of [] \<Rightarrow> []
                    | upstream # rest \<Rightarrow> [(upstream, REQ_S2S_LEAVE (take (CHANNEL_MAX - 1) c))]))
            else
              Inr (queue_id i st0,
                   local_sends @
                   map (\<lambda>server. (server, REQ_S2S_SAY i c u t))
                     (filter (\<lambda>server. server \<noteq> P) servers))))"
proof -
  have inv: "server_inv st" using assms(1) by (rule reachable_inv)
  have P: "s_ip_addr sender = P" using neighbor_keyed[OF inv assms(2)] .
  show ?thesis
    using assms(2,3) P
    by (auto simp: s2s_say_request_def Let_def remove_server_leaf_def broadcast_message_def
        update_server_time_def split: option.splits list.splits)
qed

text \<open>
  The server with one neighbour is subscribed to "Common" through it and has no local
  member: a SAY with a new ID makes it a leaf, and it leaves the sub-tree.
\<close>

theorem s2s_say_request_behaviour_witness:
  "reachable (startup ''127.0.0.1:5000'' [''127.0.0.1:5001''] 0 [])
   \<and> s2s_say_request 7 ''Common'' ''alice'' ''hi'' ''127.0.0.1:5001'' 5
       (startup ''127.0.0.1:5000'' [''127.0.0.1:5001''] 0 []
          \<lparr>r_table := [(''Common'', [''127.0.0.1:5001''])]\<rparr>)
     = Inr ((queue_id 7
              (startup ''127.0.0.1:5000'' [''127.0.0.1:5001''] 0 []
                 \<lparr>r_table := [(''Common'', [''127.0.0.1:5001''])],
                  neighbors := [(''127.0.0.1:5001'',
                                 \<lparr>s_ip_addr = ''127.0.0.1:5001'', s_last_min = 5\<rparr>)]\<rparr>))
              \<lparr>r_table := []\<rparr>,
            [(''127.0.0.1:5001'', REQ_S2S_LEAVE ''Common'')])"
proof -
  let ?B = "''127.0.0.1:5001''"
  let ?s0 = "startup ''127.0.0.1:5000'' [?B] 0 []"
  let ?st = "?s0\<lparr>r_table := [(''Common'', [?B])]\<rparr>"
  let ?sender = "\<lparr>s_ip_addr = ?B, s_last_min = 0\<rparr>"
  have r0: "reachable ?s0" by (rule reachable.start)
  have e: "server_step (Datagram ?B 0 (REQ_S2S_JOIN ''Common'')) ?s0 = Inr (?st, [])"
    unfolding one_peer_state
    by (simp add: s2s_join_request_def Let_def hm_get_def hm_put_def hm_isEmpty_def
        update_server_time_def server_join_channel_def neighbor_flood_channel_def
        hm_entryArray_def)
  have r: "reachable ?st" using reachable.step[OF r0 e] .
  have n: "hm_get (neighbors ?st) ?B = Some ?sender"
    unfolding one_peer_state by (simp add: hm_get_def)
  have t: "hm_get (r_table ?st) ''Common'' = Some [?B]" by (simp add: hm_get_def)
  have u: "id_unique 7 ?st"
    unfolding one_peer_state by (simp add: id_unique_def MSGQ_SIZE_def)
  have m: "hm_get (channels ?st) ''Common'' = Some []"
    unfolding one_peer_state by (simp add: hm_get_def)
  show ?thesis
    using r0 s2s_say_request_behaviour[OF r n t, where i = 7 and u = "''alice''" and t = "''hi''" and now = 5] u m
    unfolding one_peer_state
    by (simp add: Let_def hm_put_def hm_remove_def CHANNEL_MAX_def)
qed

subsection \<open>The leaf test\<close>

text \<open>
  Claim C2, as stated, fails on its first alternative: a server with no neighbours
  is a leaf by the words of the specification, and \<open>remove_server_leaf\<close> returns 0
  for it ("No neighbors, do nothing").
\<close>

theorem leaf_test_no_peers_counterexample:
  "leaf_as_specified ''Common'' (startup ''127.0.0.1:5000'' [] 0 [])
   \<and> remove_server_leaf ''Common'' (startup ''127.0.0.1:5000'' [] 0 [])
       = Inr (False, startup ''127.0.0.1:5000'' [] 0 [], [])"
  by (simp add: leaf_as_specified_def remove_server_leaf_def hm_isEmpty_def startup_def
      add_neighbors_def)

text \<open>
  Claim C2, amended. A server with no neighbours is never classified as a leaf. A
  server with at least one neighbour is classified as a leaf of a channel that has a
  routing-table entry if and only if the entry has fewer than 2 servers and no client
  listens on the channel (its membership list is empty or the channel has none).
\<close>

theorem remove_server_leaf_test:
  "(hm_isEmpty (neighbors st) \<longrightarrow> remove_server_leaf c st = Inr (False, st, []))
   \<and> (\<not> hm_isEmpty (neighbors st) \<and> hm_get (r_table st) c = Some servers \<longrightarrow>
        (\<exists>st' out. remove_server_leaf c st
           = Inr (length servers < 2 \<and> \<not> clients_listening c st, st', out)))"
  by (auto simp: remove_server_leaf_def clients_listening_def Let_def
      split: option.splits list.splits)

text \<open>
  One neighbour, subscribed to "k", and no client on "k": the server is a leaf.
\<close>

theorem remove_server_leaf_test_witness:
  "\<not> hm_isEmpty (neighbors (startup ''127.0.0.1:5000'' [''127.0.0.1:5001''] 0 []
        \<lparr>r_table := [(''k'', [''127.0.0.1:5001''])]\<rparr>))
   \<and> (\<exists>st' out. remove_server_leaf ''k''
         (startup ''127.0.0.1:5000'' [''127.0.0.1:5001''] 0 []
            \<lparr>r_table := [(''k'', [''127.0.0.1:5001''])]\<rparr>)
       = Inr (True, st', out))"
proof -
  let ?st = "startup ''127.0.0.1:5000'' [''127.0.0.1:5001''] 0 []
               \<lparr>r_table := [(''k'', [''127.0.0.1:5001''])]\<rparr>"
  have a: "\<not> hm_isEmpty (neighbors ?st)"
    by (simp add: startup_def add_neighbors_def)
  have b: "hm_get (r_table ?st) ''k'' = Some [''127.0.0.1:5001'']"
    by (simp add: hm_get_def)
  have c: "\<not> clients_listening ''k'' ?st"
    by (simp add: clients_listening_def hm_get_def hm_put_def startup_def DEFAULT_CHANNEL_def)
  from remove_server_leaf_test[of ?st "''k''" "[''127.0.0.1:5001'']"] a b
  have "\<exists>st' out. remove_server_leaf ''k'' ?st
           = Inr (length [''127.0.0.1:5001''] < 2 \<and> \<not> clients_listening ''k'' ?st, st', out)"
    by blast
  then show ?thesis using a c by simp
qed

subsection \<open>The last-activity minute of a neighbour\<close>

text \<open>
  Claim C3 does not hold of the code: only \<open>s2s_join_request\<close>,
  \<open>s2s_say_request\<close> and \<open>s2s_keep_alive_request\<close> call
  \<open>update_server_time\<close>. The neighbour 127.0.0.1:5001, last heard at minute 0,
  sends S2S LEAVE for "k" at minute 5: the request is carried out (the entry of "k"
  goes) and the neighbour's record still holds minute 0, although the struct documents
  the field as the minute of the last received S2S request.
\<close>

theorem s2s_leave_keeps_last_min:
  "dispatch (REQ_S2S_LEAVE ''k'') ''127.0.0.1:5001'' 5
     (startup ''127.0.0.1:5000'' [''127.0.0.1:5001''] 0 []
        \<lparr>r_table := [(''k'', [''127.0.0.1:5001''])]\<rparr>)
   = Inr (startup ''127.0.0.1:5000'' [''127.0.0.1:5001''] 0 [] \<lparr>r_table := []\<rparr>, [])
   \<and> hm_get (neighbors (startup ''127.0.0.1:5000'' [''127.0.0.1:5001''] 0 []
                          \<lparr>r_table := []\<rparr>)) ''127.0.0.1:5001''
       = Some \<lparr>s_ip_addr = ''127.0.0.1:5001'', s_last_min = 0\<rparr>"
  unfolding one_peer_state
  by (simp add: s2s_leave_request_def remove_server_leaf_def Let_def hm_get_def hm_put_def
      hm_remove_def hm_isEmpty_def)

subsection \<open>LOGIN from an endpoint that is logged in\<close>



subsection \<open>S2S JOIN\<close>

text \<open>
  Claim C5. An S2S JOIN for channel \<open>c\<close> from a known peer \<open>P\<close> stamps the peer
  with the current minute. If the routing table has no entry for \<open>c\<close>, the handler
  creates one holding all current peers and sends S2S JOIN for the channel to every
  peer except \<open>P\<close>. If it has an entry, the handler appends \<open>P\<close> to it when
  \<open>P\<close> is not in it, leaves it alone when it is, and sends nothing.
\<close>

theorem s2s_join_request_subscribes:
  assumes "reachable st" and "hm_get (neighbors st) P = Some sender"
  shows "(hm_get (r_table st) c = None \<longrightarrow>
            s2s_join_request c P now st =
              (st\<lparr>neighbors := hm_put (neighbors st) P (sender\<lparr>s_last_min := now\<rparr>),
                  r_table := hm_put (r_table st) c (hm_keyArray (neighbors st))\<rparr>,
               map (\<lambda>ip. (ip, REQ_S2S_JOIN (take (CHANNEL_MAX - 1) c)))
                 (filter (\<lambda>ip. ip \<noteq> P) (hm_keyArray (neighbors st)))))
       \<and> (\<forall>servers. hm_get (r_table st) c = Some servers \<longrightarrow>
            s2s_join_request c P now st =
              (st\<lparr>neighbors := hm_put (neighbors st) P (sender\<lparr>s_last_min := now\<rparr>),
                  r_table := (if P \<in> set servers then r_table st
                              else hm_put (r_table st) c (servers @ [P]))\<rparr>,
               []))"
proof -
  let ?nb = "hm_put (neighbors st) P (update_server_time now sender)"
  have inv: "server_inv st" using assms(1) by (rule reachable_inv)
  have P: "s_ip_addr sender = P" using neighbor_keyed[OF inv assms(2)] .
  have k: "keyed s_ip_addr ?nb"
    using inv P by (auto simp: server_inv_def intro!: keyed_put)
  have keys: "hm_keyArray ?nb = hm_keyArray (neighbors st)"
    using assms(2) by (rule hm_keyArray_put_present)
  have ents: "map s_ip_addr (hm_entryArray ?nb) = hm_keyArray (neighbors st)"
    using keyed_entries_keys[OF k] keys by simp
  have flood: "map (\<lambda>server. (s_ip_addr server, pk))
                 (filter (\<lambda>server. s_ip_addr server \<noteq> P) (hm_entryArray ?nb))
               = map (\<lambda>ip. (ip, pk)) (filter (\<lambda>ip. ip \<noteq> P) (hm_keyArray (neighbors st)))" for pk :: packet
  proof -
    have "map (\<lambda>ip. (ip, pk)) (filter (\<lambda>ip. ip \<noteq> P) (map s_ip_addr (hm_entryArray ?nb)))
          = map (\<lambda>server. (s_ip_addr server, pk))
              (filter (\<lambda>server. s_ip_addr server \<noteq> P) (hm_entryArray ?nb))"
      by (simp add: filter_map comp_def)
    then show ?thesis using ents by simp
  qed
  show ?thesis
    using assms(2) P ents flood
    by (auto simp: s2s_join_request_def Let_def server_join_channel_def
        neighbor_flood_channel_def update_server_time_def ll_add_def)
qed

text \<open>
  A server with two neighbours receives the first S2S JOIN for "k" from one of them:
  both are subscribed, and the JOIN goes on to the other one only.
\<close>

theorem s2s_join_request_subscribes_witness:
  "reachable (startup ''127.0.0.1:5000'' [''127.0.0.1:5001'', ''127.0.0.1:5002''] 0 [])
   \<and> hm_get (neighbors (startup ''127.0.0.1:5000'' [''127.0.0.1:5001'', ''127.0.0.1:5002''] 0 []))
         ''127.0.0.1:5001'' = Some \<lparr>s_ip_addr = ''127.0.0.1:5001'', s_last_min = 0\<rparr>
   \<and> snd (s2s_join_request ''k'' ''127.0.0.1:5001'' 5
         (startup ''127.0.0.1:5000'' [''127.0.0.1:5001'', ''127.0.0.1:5002''] 0 []))
       = [(''127.0.0.1:5002'', REQ_S2S_JOIN ''k'')]
   \<and> hm_get (r_table (fst (s2s_join_request ''k'' ''127.0.0.1:5001'' 5
         (startup ''127.0.0.1:5000'' [''127.0.0.1:5001'', ''127.0.0.1:5002''] 0 []))))
         ''k'' = Some [''127.0.0.1:5001'', ''127.0.0.1:5002'']"
proof -
  let ?st = "startup ''127.0.0.1:5000'' [''127.0.0.1:5001'', ''127.0.0.1:5002''] 0 []"
  let ?sender = "\<lparr>s_ip_addr = ''127.0.0.1:5001'', s_last_min = 0\<rparr>"
  have r: "reachable ?st" by (rule reachable.start)
  have n: "hm_get (neighbors ?st) ''127.0.0.1:5001'' = Some ?sender"
    by (simp add: startup_def add_neighbors_def hm_get_def hm_put_def malloc_server_def)
  have t: "hm_get (r_table ?st) ''k'' = None"
    by (simp add: startup_def hm_get_def)
  have keys: "hm_keyArray (neighbors ?st) = [''127.0.0.1:5001'', ''127.0.0.1:5002'']"
    by (simp add: startup_def add_neighbors_def hm_keyArray_def hm_put_def malloc_server_def)
  from s2s_join_request_subscribes[OF r n, of "''k''" 5] t
  have "s2s_join_request ''k'' ''127.0.0.1:5001'' 5 ?st =
          (?st\<lparr>neighbors := hm_put (neighbors ?st) ''127.0.0.1:5001'' (?sender\<lparr>s_last_min := 5\<rparr>),
               r_table := hm_put (r_table ?st) ''k'' (hm_keyArray (neighbors ?st))\<rparr>,
           map (\<lambda>ip. (ip, REQ_S2S_JOIN (take (CHANNEL_MAX - 1) ''k'')))
             (filter (\<lambda>ip. ip \<noteq> ''127.0.0.1:5001'') (hm_keyArray (neighbors ?st))))"
    by blast
  then show ?thesis
    using r n keys by (simp add: hm_get_put CHANNEL_MAX_def)
qed

subsection \<open>LEAVE for a channel that does not exist\<close>

text \<open>
  Claim C8. A logged-in client asks to leave a channel \<open>c\<close> (a name that fits its
  field of \<open>CHANNEL_MAX\<close> bytes) that is not a key of the channels: the server sends
  the client TXT\_ERROR "No channel by the name c." and changes nothing but the
  last-activity minute in the client's record.
\<close>

theorem leave_unknown_channel:
  assumes "reachable st" and "hm_get (users st) ip = Some user"
    and "length c < CHANNEL_MAX" and "hm_get (channels st) c = None"
  shows "server_leave_request c ip now st =
           Inr (st\<lparr>users := hm_put (users st) ip (user\<lparr>u_last_min := now\<rparr>)\<rparr>,
                [(ip, TXT_ERROR (''No channel by the name '' @ c @ ''.''))])"
proof -
  have inv: "server_inv st" using assms(1) by (rule reachable_inv)
  have ip: "u_ip_addr user = ip" using user_keyed[OF inv assms(2)] .
  have c: "take (CHANNEL_MAX - 1) c = c" using assms(3) by simp
  have "length (''No channel by the name '' @ c @ ''.'') \<le> SAY_MAX - 1"
    using assms(3) by (simp add: SAY_MAX_def CHANNEL_MAX_def)
  then have msg: "take (SAY_MAX - 1) (''No channel by the name '' @ c @ ''.'')
                  = ''No channel by the name '' @ c @ ''.''"
    by (rule take_all)
  show ?thesis
    using assms(2,4) ip c msg
    by (simp add: server_leave_request_def Let_def server_send_error_def update_user_time_def)
qed

text \<open>
  "alice" has logged in and asks to leave "games", which nobody has joined.
\<close>

theorem leave_unknown_channel_witness:
  "reachable (startup ''127.0.0.1:5000'' [] 0 []
      \<lparr>users := [(''10.0.0.1:4000'',
          \<lparr>u_ip_addr = ''10.0.0.1:4000'', u_username = ''alice'', u_channels = [],
           u_last_min = 0\<rparr>)]\<rparr>)
   \<and> length ''games'' < CHANNEL_MAX
   \<and> server_leave_request ''games'' ''10.0.0.1:4000'' 3
       (startup ''127.0.0.1:5000'' [] 0 []
          \<lparr>users := [(''10.0.0.1:4000'',
              \<lparr>u_ip_addr = ''10.0.0.1:4000'', u_username = ''alice'', u_channels = [],
               u_last_min = 0\<rparr>)]\<rparr>)
     = Inr (startup ''127.0.0.1:5000'' [] 0 []
              \<lparr>users := [(''10.0.0.1:4000'',
                  \<lparr>u_ip_addr = ''10.0.0.1:4000'', u_username = ''alice'', u_channels = [],
                   u_last_min = 3\<rparr>)]\<rparr>,
            [(''10.0.0.1:4000'', TXT_ERROR ''No channel by the name games.'')])"
proof -
  let ?ip = "''10.0.0.1:4000''"
  let ?s0 = "startup ''127.0.0.1:5000'' [] 0 []"
  let ?u = "\<lparr>u_ip_addr = ?ip, u_username = ''alice'', u_channels = [], u_last_min = 0\<rparr>"
  let ?s1 = "?s0\<lparr>users := [(?ip, ?u)]\<rparr>"
  have e1: "server_step (Datagram ?ip 0 (REQ_LOGIN ''alice'')) ?s0 = Inr (?s1, [])"
    by (simp add: Let_def server_login_request_def malloc_user_def hm_put_def USERNAME_MAX_def
        startup_def add_neighbors_def)
  have r: "reachable ?s1" using reachable.step[OF reachable.start e1] .
  have u: "hm_get (users ?s1) ?ip = Some ?u" by (simp add: hm_get_def)
  have l: "length ''games'' < CHANNEL_MAX" by (simp add: CHANNEL_MAX_def)
  have c: "hm_get (channels ?s1) ''games'' = None"
    by (simp add: hm_get_def hm_put_def startup_def DEFAULT_CHANNEL_def)
  show ?thesis
    using r l leave_unknown_channel[OF r u l c, of 3] by (simp add: hm_put_def)
qed

subsection \<open>Which S2S requests check their sender\<close>







subsection \<open>Requests from an endpoint that is not logged in\<close>

text \<open>
  Claim C10. A JOIN, LEAVE, SAY, LIST, WHO, KEEP-ALIVE or LOGOUT from an endpoint
  with no user record is dropped: the handler returns the state as it was and sends
  nothing.
\<close>

theorem unknown_client_dropped:
  assumes "hm_get (users st) ip = None" and "needs_login pkt"
  shows "dispatch pkt ip now st = Inr (st, [])"
  using assms
  by (cases pkt)
     (simp_all add: server_join_request_def server_leave_request_def server_say_request_def
        server_list_request_def server_who_request_def server_keep_alive_request_def
        server_logout_request_def)

text \<open>
  A SAY from an endpoint that never logged in.
\<close>

theorem unknown_client_dropped_witness:
  "hm_get (users (startup ''127.0.0.1:5000'' [''127.0.0.1:5001''] 0 [])) ''10.0.0.1:4000'' = None
   \<and> needs_login (REQ_SAY ''Common'' ''hello'')
   \<and> dispatch (REQ_SAY ''Common'' ''hello'') ''10.0.0.1:4000'' 7
        (startup ''127.0.0.1:5000'' [''127.0.0.1:5001''] 0 [])
      = Inr (startup ''127.0.0.1:5000'' [''127.0.0.1:5001''] 0 [], [])"
proof -
  let ?st = "startup ''127.0.0.1:5000'' [''127.0.0.1:5001''] 0 []"
  have u: "hm_get (users ?st) ''10.0.0.1:4000'' = None"
    by (simp add: startup_def hm_get_def)
  have p: "needs_login (REQ_SAY ''Common'' ''hello'')" by simp
  show ?thesis using u p unknown_client_dropped[OF u p, of 7] by blast
qed

end
